theory Spec2Isabelle
  imports Main "HOL-Library.AList" "HOL-Library.Sublist"
begin

unbundle bit_operations_syntax

section \<open>The node-local dataplane attachment engine of kube-ovn (pkg/daemon)\<close>

text \<open>
  A shallow embedding of the functions of \<^verbatim>\<open>pkg/daemon/controller.go\<close> that
  derive device names, reconcile addresses, install default routes, probe the gateway,
  migrate an uplink to and from its bridge, and collect residual switch ports.

  The Go code talks to the kernel (netlink, sysctl) and to the switch (ovs-vsctl).
  Every such call is kept: a read is a field of the environment \<open>env\<close>, a call with
  an effect is a value of the datatype \<open>syscall\<close>, whose result (\<open>None\<close> for Go's
  \<^verbatim>\<open>nil\<close> error) the environment decides, and every modelled function returns
  the list of the calls it made, each with its result, next to what it returns. A Go
  \<^verbatim>\<open>panic\<close> (a slice bound or an index out of range) is the result \<open>Panic\<close>,
  or \<open>None\<close> for the pure name deriver.
\<close>

subsection \<open>Go strings\<close>

text \<open>A Go string is a sequence of bytes, and \<^verbatim>\<open>len\<close> counts bytes: \<open>string\<close>.\<close>

text \<open>\<^verbatim>\<open>strings.Split(s, sep)\<close> for a separator of one byte. The result is never empty.\<close>

fun strings_Split :: "char \<Rightarrow> string \<Rightarrow> string list" where
  "strings_Split sep [] = [[]]"
| "strings_Split sep (c # cs) =
     (if c = sep then [] # strings_Split sep cs
      else (case strings_Split sep cs of
              w # ws \<Rightarrow> (c # w) # ws
            | [] \<Rightarrow> [[c]]))"

text \<open>\<^verbatim>\<open>strings.TrimPrefix(s, p)\<close>.\<close>

definition strings_TrimPrefix :: "string \<Rightarrow> string \<Rightarrow> string" where
  "strings_TrimPrefix s p = (if take (length p) s = p then drop (length p) s else s)"

text \<open>
  The slice expression \<^verbatim>\<open>s[0:hi]\<close>: it panics unless \<open>0 \<le> hi \<le> len(s)\<close>.
  \<open>None\<close> is the panic.
\<close>

definition slice_to :: "string \<Rightarrow> int \<Rightarrow> string option" where
  "slice_to s hi = (if 0 \<le> hi \<and> hi \<le> int (length s) then Some (take (nat hi) s) else None)"

subsection \<open>Name Deriver: generateNicName\<close>

text \<open>
  \<^verbatim>\<open>
  func generateNicName(containerID, ifname string) (string, string) {
      if ifname == "eth0" {
          return fmt.Sprintf("%s_h", containerID[0:12]), fmt.Sprintf("%s_c", containerID[0:12])
      }
      return fmt.Sprintf("%s_%s_h", containerID[0:12-len(ifname)], ifname),
             fmt.Sprintf("%s_%s_c", containerID[0:12-len(ifname)], ifname)
  }
  \<close>
\<close>

definition generateNicName :: "string \<Rightarrow> string \<Rightarrow> (string \<times> string) option" where
  "generateNicName containerID ifname =
     (if ifname = ''eth0'' then
        (case slice_to containerID 12 of
           None \<Rightarrow> None
         | Some p \<Rightarrow> Some (p @ ''_h'', p @ ''_c''))
      else
        (case slice_to containerID (12 - int (length ifname)) of
           None \<Rightarrow> None
         | Some p \<Rightarrow> Some (p @ ''_'' @ ifname @ ''_h'', p @ ''_'' @ ifname @ ''_c'')))"


subsection \<open>Errors and results\<close>

text \<open>
  Go errors as values. \<open>LinkNotFoundError\<close> is \<^verbatim>\<open>netlink.LinkNotFoundError\<close>,
  which the code recognises by a type assertion; \<open>EADDRNOTAVAIL\<close> is the errno the
  code recognises with \<^verbatim>\<open>errors.Is(err, syscall.EADDRNOTAVAIL)\<close>; \<open>OtherError\<close>
  is any other error of a library; \<open>Errorf msg err\<close> is \<^verbatim>\<open>fmt.Errorf(msg + ": %v", err)\<close>,
  a new error that keeps the text of its cause only.
\<close>

datatype error =
    LinkNotFoundError
  | EADDRNOTAVAIL
  | OtherError string
  | Errorf string error

text \<open>How a call of a modelled function ends: it returns nil, returns an error, or panics.\<close>

datatype status = Done | Failed error | Panic

subsection \<open>Addresses, routes and links (packages net and netlink)\<close>

text \<open>
  \<^verbatim>\<open>net.IP\<close>, \<^verbatim>\<open>net.IPMask\<close> and \<^verbatim>\<open>net.HardwareAddr\<close> are byte slices:
  lists of numbers below 256, the empty list for nil.
\<close>

record IPNet =
  IP :: "nat list"
  Mask :: "nat list"

text \<open>\<^verbatim>\<open>netlink.Addr\<close> embeds \<^verbatim>\<open>*net.IPNet\<close>; of its other fields the code reads Label.\<close>

record Addr = IPNet +
  Label :: string

text \<open>\<^verbatim>\<open>netlink.Scope\<close> is a uint8.\<close>

definition SCOPE_UNIVERSE :: nat where "SCOPE_UNIVERSE = 0"
definition SCOPE_SITE :: nat where "SCOPE_SITE = 200"
definition SCOPE_LINK :: nat where "SCOPE_LINK = 253"
definition SCOPE_HOST :: nat where "SCOPE_HOST = 254"

record Route =
  LinkIndex :: int
  Scope :: nat
  Dst :: "IPNet option"
  Gw :: "nat list"

datatype OperState =
    OperUnknown | OperNotPresent | OperDown | OperLowerLayerDown
  | OperTesting | OperDormant | OperUp

text \<open>
  The dynamic type of a \<^verbatim>\<open>netlink.Link\<close>, as far as the code inspects it:
  \<^verbatim>\<open>*netlink.Bond\<close> with its Mode, \<^verbatim>\<open>*netlink.Vlan\<close> with its ParentIndex, or
  another device.
\<close>

datatype LinkKind = Device | Bond nat | Vlan int

definition BOND_MODE_BALANCE_ALB :: nat where "BOND_MODE_BALANCE_ALB = 6"

record Link =
  Name :: string
  Index :: int
  MTU :: int
  HardwareAddr :: "nat list"
  LinkOperState :: OperState
  Kind :: LinkKind

text \<open>\<^verbatim>\<open>request.Route\<close>: an additional static route of an attachment request.\<close>

record ReqRoute =
  Destination :: string
  Gateway :: string

text \<open>
  The result of \<^verbatim>\<open>util.CheckProtocol\<close>: one of the three constants
  \<^verbatim>\<open>kubeovnv1.ProtocolIPv4\<close>, \<^verbatim>\<open>ProtocolIPv6\<close>, \<^verbatim>\<open>ProtocolDual\<close>, or any other
  string (\<open>ProtocolInvalid\<close>), which none of the code's comparisons matches.
\<close>

datatype Protocol = ProtocolIPv4 | ProtocolIPv6 | ProtocolDual | ProtocolInvalid

subsubsection \<open>Formatting addresses: (net.IP).String and (net.IPMask).String\<close>

definition hexDigit :: "nat \<Rightarrow> char" where
  "hexDigit n = ''0123456789abcdef'' ! (n mod 16)"

text \<open>Decimal digits of a number, without leading zeros.\<close>

fun itoa :: "nat \<Rightarrow> string" where
  "itoa n = (if n < 10 then [hexDigit n] else itoa (n div 10) @ [hexDigit (n mod 10)])"

text \<open>Hexadecimal digits of a number, without leading zeros.\<close>

fun appendHex :: "nat \<Rightarrow> string" where
  "appendHex n = (if n < 16 then [hexDigit n] else appendHex (n div 16) @ [hexDigit (n mod 16)])"

declare itoa.simps [simp del] appendHex.simps [simp del]

text \<open>Two hexadecimal digits for every byte, with no punctuation.\<close>

definition hexString :: "nat list \<Rightarrow> string" where
  "hexString bs = concat (map (\<lambda>b. [hexDigit (b div 16), hexDigit (b mod 16)]) bs)"

text \<open>\<^verbatim>\<open>(net.IP).To4\<close>: the 4-byte form of an IPv4 address, nil (\<open>[]\<close>) otherwise.\<close>

definition To4 :: "nat list \<Rightarrow> nat list" where
  "To4 ip =
     (if length ip = 4 then ip
      else if length ip = 16 \<and> take 10 ip = replicate 10 0 \<and> ip ! 10 = 255 \<and> ip ! 11 = 255
      then drop 12 ip
      else [])"

text \<open>\<^verbatim>\<open>(net.IP).IsLinkLocalUnicast\<close>: 169.254.0.0/16 and fe80::/10.\<close>

definition IsLinkLocalUnicast :: "nat list \<Rightarrow> bool" where
  "IsLinkLocalUnicast ip =
     (let ip4 = To4 ip in
      if ip4 \<noteq> [] then ip4 ! 0 = 169 \<and> ip4 ! 1 = 254
      else length ip = 16 \<and> ip ! 0 = 254 \<and> (ip ! 1) AND 192 = 128)"

fun joinWith :: "string \<Rightarrow> string list \<Rightarrow> string" where
  "joinWith sep [] = []"
| "joinWith sep [x] = x"
| "joinWith sep (x # y # ys) = x @ sep @ joinWith sep (y # ys)"

text \<open>
  The first longest run of zero groups of an IPv6 address, as the loop of
  \<^verbatim>\<open>(net.IP).String\<close> finds it: \<open>(e0, e1)\<close> are the group indices where it starts
  and ends, \<open>(0, 0)\<close> when there is none.
\<close>

function longestZeroRun :: "nat list \<Rightarrow> nat \<Rightarrow> nat \<times> nat \<Rightarrow> nat \<times> nat" where
  "longestZeroRun gs i (e0, e1) =
     (if length gs \<le> i then (e0, e1)
      else (let j = i + length (takeWhile (\<lambda>g. g = 0) (drop i gs)) in
            if i < j \<and> e1 - e0 < j - i then longestZeroRun gs (Suc j) (i, j)
            else longestZeroRun gs (Suc i) (e0, e1)))"
  by pat_completeness auto
termination
  by (relation "measure (\<lambda>(gs, i, e). length gs - i)") auto

declare longestZeroRun.simps [simp del]

fun groups16 :: "nat list \<Rightarrow> nat list" where
  "groups16 (hi # lo # rest) = (hi * 256 + lo) # groups16 rest"
| "groups16 _ = []"

text \<open>
  \<^verbatim>\<open>(net.IP).String\<close>: dotted decimal for an IPv4 address, otherwise the IPv6 text
  with the first longest run of at least two zero groups written as \<open>::\<close>.
\<close>

definition IP_String :: "nat list \<Rightarrow> string" where
  "IP_String ip =
     (if length ip = 0 then ''<nil>''
      else if length (To4 ip) = 4 then joinWith ''.'' (map itoa (To4 ip))
      else if length ip \<noteq> 16 then ''?'' @ hexString ip
      else (let gs = groups16 ip; (e0, e1) = longestZeroRun gs 0 (0, 0) in
            if e1 - e0 \<le> 1 then joinWith '':'' (map appendHex gs)
            else joinWith '':'' (map appendHex (take e0 gs)) @ ''::'' @
                 joinWith '':'' (map appendHex (drop e1 gs))))"

text \<open>
  \<^verbatim>\<open>(net.IPMask).String\<close>: "the hexadecimal form of m, with no punctuation", so
  \<open>ffffff00\<close> for the mask of a /24.
\<close>

definition Mask_String :: "nat list \<Rightarrow> string" where
  "Mask_String m = (if length m = 0 then ''<nil>'' else hexString m)"

text \<open>The two destinations the code parses from constants: 0.0.0.0/0 and ::/0.\<close>

definition defaultNet4 :: IPNet where
  "defaultNet4 = \<lparr>IP = [0, 0, 0, 0], Mask = [0, 0, 0, 0]\<rparr>"

definition defaultNet6 :: IPNet where
  "defaultNet6 = \<lparr>IP = replicate 16 0, Mask = replicate 16 0\<rparr>"

subsection \<open>Calls with an effect, and the environment\<close>

text \<open>A link the code creates: a veth with its peer name and MTU, or a dummy.\<close>

datatype NewLink = Veth string string int | Dummy string

text \<open>
  The calls with an effect on the kernel, the switch or the network. A link is passed
  as the value the lookup returned. \<open>ovs_Exec\<close> carries the arguments of
  \<^verbatim>\<open>ovs.Exec\<close>; \<open>Arping\<close> and \<open>pingGateway\<close> are the two gateway probes.
\<close>

datatype syscall =
    LinkAdd NewLink
  | LinkDel NewLink
  | LinkSetAlias Link string
  | LinkSetNsFd Link string
  | WithNetNSPath string
  | LinkSetName Link string
  | SysctlSet string string
  | AddrDel Link Addr
  | AddrAdd Link Addr
  | AddrReplace Link Addr
  | LinkSetHardwareAddr Link "nat list"
  | LinkSetMTU Link int
  | LinkSetUp Link
  | LinkSetDown Link
  | RouteReplace Route
  | ovs_Exec "string list"
  | Arping string string string nat
  | pingGateway string string bool

text \<open>
  The environment: what the reads return, whether each call with an effect fails, and
  as parameters the functions and constants that other files of the repository define
  (\<^verbatim>\<open>util.CheckProtocol\<close>, \<^verbatim>\<open>routeScopeOrders\<close>,
  \<^verbatim>\<open>gatewayCheckMaxRetry\<close>, \<^verbatim>\<open>gatewayModeDisabled\<close>,
  \<^verbatim>\<open>gatewayCheckModeArping\<close>, \<^verbatim>\<open>util.InternalType\<close>,
  \<^verbatim>\<open>ovs.MayExist\<close>, \<^verbatim>\<open>ovs.IfExists\<close>, \<^verbatim>\<open>util.CniTypeName\<close>) and the
  library functions that parse text (\<^verbatim>\<open>netlink.ParseAddr\<close>,
  \<^verbatim>\<open>net.ParseCIDR\<close>, \<^verbatim>\<open>net.ParseIP\<close>).
  The result of a call depends on the call only, not on the calls before it.
\<close>

record env =
  LinkByName :: "string \<Rightarrow> error + Link"
  LinkByIndex :: "int \<Rightarrow> error + Link"
  AddrList :: "Link \<Rightarrow> error + Addr list"
  RouteList :: "Link \<Rightarrow> error + Route list"
  Sysctl :: "string \<Rightarrow> error + string"
  ParseAddr :: "string \<Rightarrow> error + Addr"
  ParseCIDR :: "string \<Rightarrow> error + IPNet"
  ParseIP :: "string \<Rightarrow> nat list"
  CheckProtocol :: "string \<Rightarrow> Protocol"
  routeScopeOrders :: "nat list"
  gatewayCheckMaxRetry :: nat
  gatewayModeDisabled :: int
  gatewayCheckModeArping :: int
  InternalType :: string
  MayExist :: string
  IfExists :: string
  CniTypeName :: string
  outcome :: "syscall \<Rightarrow> error option"

text \<open>A call that was made, with its result; a run is how it ended and what it called.\<close>

type_synonym event = "syscall \<times> error option"

type_synonym exec = "status \<times> event list"

text \<open>
  One call: \<^verbatim>\<open>if err := f(...); err != nil { return wrap(err) }\<close>.
\<close>

definition invoke :: "env \<Rightarrow> syscall \<Rightarrow> (error \<Rightarrow> error) \<Rightarrow> exec" where
  "invoke env c wrap =
     ((case outcome env c of None \<Rightarrow> Done | Some err \<Rightarrow> Failed (wrap err)),
      [(c, outcome env c)])"

text \<open>Sequencing: what follows runs only when what came before returned no error.\<close>

definition andThen :: "exec \<Rightarrow> exec \<Rightarrow> exec" where
  "andThen r k = (case fst r of Done \<Rightarrow> (fst k, snd r @ snd k) | _ \<Rightarrow> r)"

definition seqs :: "exec list \<Rightarrow> exec" where
  "seqs rs = foldr andThen rs (Done, [])"

definition whenever :: "bool \<Rightarrow> exec \<Rightarrow> exec" where
  "whenever b r = (if b then r else (Done, []))"

subsection \<open>Namespace Installer: configureNic\<close>

text \<open>
  The two Go maps \<^verbatim>\<open>ipDelMap\<close> and \<^verbatim>\<open>ipAddMap\<close> are association lists with
  unique keys (\<open>AList.update\<close>, \<open>AList.delete\<close>). Go iterates a map in an
  unspecified order; the model iterates in the order of insertion.

  \<^verbatim>\<open>
  for _, ipAddr := range ipAddrs {
      if ipAddr.IP.IsLinkLocalUnicast() { continue }
      ipDelMap[ipAddr.IP.String()+"/"+ipAddr.Mask.String()] = ipAddr
  }
  \<close>
\<close>

fun collectDel :: "Addr list \<Rightarrow> (string \<times> Addr) list \<Rightarrow> (string \<times> Addr) list" where
  "collectDel [] ipDelMap = ipDelMap"
| "collectDel (ipAddr # rest) ipDelMap =
     (if IsLinkLocalUnicast (IP ipAddr) then collectDel rest ipDelMap
      else collectDel rest
             (AList.update (IP_String (IP ipAddr) @ ''/'' @ Mask_String (Mask ipAddr)) ipAddr ipDelMap))"

text \<open>
  \<^verbatim>\<open>
  for _, ipStr := range strings.Split(ip, ",") {
      // Do not reassign same address for link
      if _, ok := ipDelMap[ipStr]; ok {
          delete(ipDelMap, ipStr)
          continue
      }
      ipAddr, err := netlink.ParseAddr(ipStr)
      if err != nil { return fmt.Errorf("can not parse address %s: %v", ipStr, err) }
      ipAddMap[ipStr] = *ipAddr
  }
  \<close>
\<close>

fun collectAdd :: "env \<Rightarrow> string \<Rightarrow> string list \<Rightarrow> (string \<times> Addr) list \<Rightarrow> (string \<times> Addr) list \<Rightarrow>
    error + ((string \<times> Addr) list \<times> (string \<times> Addr) list)" where
  "collectAdd env msg [] ipDelMap ipAddMap = Inr (ipDelMap, ipAddMap)"
| "collectAdd env msg (ipStr # rest) ipDelMap ipAddMap =
     (if map_of ipDelMap ipStr \<noteq> None
      then collectAdd env msg rest (AList.delete ipStr ipDelMap) ipAddMap
      else (case ParseAddr env ipStr of
              Inl err \<Rightarrow> Inl (Errorf msg err)
            | Inr ipAddr \<Rightarrow> collectAdd env msg rest ipDelMap (AList.update ipStr ipAddr ipAddMap)))"

text \<open>The two loops that delete every address of ipDelMap, then add every address of ipAddMap.\<close>

definition applyAddrs :: "env \<Rightarrow> Link \<Rightarrow> string \<Rightarrow> string \<Rightarrow>
    (string \<times> Addr) list \<Rightarrow> (string \<times> Addr) list \<Rightarrow> exec" where
  "applyAddrs env nodeLink msgDel msgAdd ipDelMap ipAddMap =
     seqs (map (\<lambda>addr. invoke env (AddrDel nodeLink addr) (Errorf msgDel)) (map snd ipDelMap) @
           map (\<lambda>addr. invoke env (AddrAdd nodeLink addr) (Errorf msgAdd)) (map snd ipAddMap))"

definition configureNic :: "env \<Rightarrow> string \<Rightarrow> string \<Rightarrow> nat list \<Rightarrow> int \<Rightarrow> exec" where
  "configureNic env link ip macAddr mtu =
     (case LinkByName env link of
        Inl err \<Rightarrow> (Failed (Errorf ''can not find nic'' err), [])
      | Inr nodeLink \<Rightarrow>
     (case AddrList env nodeLink of
        Inl err \<Rightarrow> (Failed (Errorf ''can not get addr'' err), [])
      | Inr ipAddrs \<Rightarrow>
     (case collectAdd env ''can not parse address'' (strings_Split CHR '','' ip)
             (collectDel ipAddrs []) [] of
        Inl err \<Rightarrow> (Failed err, [])
      | Inr (ipDelMap, ipAddMap) \<Rightarrow>
          seqs
            [applyAddrs env nodeLink ''delete address'' ''can not add address to nic''
               ipDelMap ipAddMap,
             invoke env (LinkSetHardwareAddr nodeLink macAddr)
               (Errorf ''can not set mac address to nic''),
             whenever (0 < mtu)
               (invoke env (LinkSetMTU nodeLink mtu) (Errorf ''can not set nic mtu'')),
             whenever (LinkOperState nodeLink \<noteq> OperUp)
               (invoke env (LinkSetUp nodeLink) (Errorf ''can not set node nic up''))])))"

text \<open>configureAdditionalNic reconciles the addresses the same way and stops there.\<close>

definition configureAdditionalNic :: "env \<Rightarrow> string \<Rightarrow> string \<Rightarrow> exec" where
  "configureAdditionalNic env link ip =
     (case LinkByName env link of
        Inl err \<Rightarrow> (Failed (Errorf ''can not find nic'' err), [])
      | Inr nodeLink \<Rightarrow>
     (case AddrList env nodeLink of
        Inl err \<Rightarrow> (Failed (Errorf ''can not get addr'' err), [])
      | Inr ipAddrs \<Rightarrow>
     (case collectAdd env ''can not parse'' (strings_Split CHR '','' ip)
             (collectDel ipAddrs []) [] of
        Inl err \<Rightarrow> (Failed err, [])
      | Inr (ipDelMap, ipAddMap) \<Rightarrow>
          applyAddrs env nodeLink ''delete address'' ''can not add address to nic''
            ipDelMap ipAddMap)))"

definition addAdditionalNic :: "env \<Rightarrow> string \<Rightarrow> exec" where
  "addAdditionalNic env ifName =
     (let dummy = Dummy ifName in
      case outcome env (LinkAdd dummy) of
        None \<Rightarrow> (Done, [(LinkAdd dummy, None)])
      | Some err \<Rightarrow>
          (case outcome env (LinkDel dummy) of
             Some err' \<Rightarrow> (Failed err', [(LinkAdd dummy, Some err), (LinkDel dummy, Some err')])
           | None \<Rightarrow>
               (Failed (Errorf ''failed to create static iface'' err),
                [(LinkAdd dummy, Some err), (LinkDel dummy, None)])))"

subsection \<open>Reachability Prober: waitNetworkReady\<close>

text \<open>
  One turn of the loop over the gateways. \<^verbatim>\<open>ips[i]\<close> panics when the index is out
  of range; \<^verbatim>\<open>strings.Split(ips[i], "/")[0]\<close> never does. The hardware address and
  the count that \<^verbatim>\<open>util.Arping\<close> also returns go to the log and a metric only.

  \<^verbatim>\<open>
  src := strings.Split(ips[i], "/")[0]
  if underlayGateway && util.CheckProtocol(gw) == kubeovnv1.ProtocolIPv4 {
      mac, count, err := util.Arping(nic, src, gw, time.Second, gatewayCheckMaxRetry)
      if err != nil { err = fmt.Errorf("network ... is not ready ..."); return err }
  } else {
      if err := pingGateway(gw, src, verbose); err != nil { return err }
  }
  \<close>
\<close>

definition gatewayProbe :: "env \<Rightarrow> string \<Rightarrow> string list \<Rightarrow> bool \<Rightarrow> bool \<Rightarrow> nat \<Rightarrow> string \<Rightarrow> exec" where
  "gatewayProbe env nic ips underlayGateway verbose i gw =
     (if length ips \<le> i then (Panic, [])
      else (let src = hd (strings_Split CHR ''/'' (ips ! i)) in
            if underlayGateway \<and> CheckProtocol env gw = ProtocolIPv4
            then invoke env (Arping nic src gw (gatewayCheckMaxRetry env))
                   (Errorf ''network with gateway is not ready for interface'')
            else invoke env (pingGateway gw src verbose) (\<lambda>err. err)))"

definition waitNetworkReady :: "env \<Rightarrow> string \<Rightarrow> string \<Rightarrow> string \<Rightarrow> bool \<Rightarrow> bool \<Rightarrow> exec" where
  "waitNetworkReady env nic ipAddr gateway underlayGateway verbose =
     (let ips = strings_Split CHR '','' ipAddr in
      seqs (map (\<lambda>(i, gw). gatewayProbe env nic ips underlayGateway verbose i gw)
             (enumerate 0 (strings_Split CHR '','' gateway))))"

subsection \<open>Namespace Installer: configureContainerNic\<close>

definition defaultRoute :: "Link \<Rightarrow> IPNet \<Rightarrow> nat list \<Rightarrow> Route" where
  "defaultRoute containerLink defaultNet gw =
     \<lparr>LinkIndex = Index containerLink, Scope = SCOPE_UNIVERSE, Dst = Some defaultNet, Gw = gw\<rparr>"

text \<open>
  The body of \<^verbatim>\<open>if isDefaultRoute { switch util.CheckProtocol(ipAddr) { ... } }\<close>.
  In the dual-stack case the first route is replaced with \<^verbatim>\<open>gws[0]\<close>, an error of
  it is returned at once, and \<^verbatim>\<open>gws[1]\<close> panics when the gateway string has no
  comma. The switch has no default case.
\<close>

definition configureDefaultRoute :: "env \<Rightarrow> Link \<Rightarrow> string \<Rightarrow> string \<Rightarrow> exec" where
  "configureDefaultRoute env containerLink ipAddr gateway =
     (case CheckProtocol env ipAddr of
        ProtocolIPv4 \<Rightarrow>
          invoke env (RouteReplace (defaultRoute containerLink defaultNet4 (ParseIP env gateway)))
            (Errorf ''failed to configure gateway'')
      | ProtocolIPv6 \<Rightarrow>
          invoke env (RouteReplace (defaultRoute containerLink defaultNet6 (ParseIP env gateway)))
            (Errorf ''failed to configure gateway'')
      | ProtocolDual \<Rightarrow>
          (let gws = strings_Split CHR '','' gateway in
           andThen
             (invoke env
                (RouteReplace (defaultRoute containerLink defaultNet4 (ParseIP env (gws ! 0))))
                (Errorf ''config v4 gateway failed''))
             (if length gws \<le> 1 then (Panic, [])
              else invoke env
                     (RouteReplace (defaultRoute containerLink defaultNet6 (ParseIP env (gws ! 1))))
                     (Errorf ''failed to configure gateway'')))
      | ProtocolInvalid \<Rightarrow> (Done, []))"

text \<open>
  One additional static route: a destination or gateway that does not parse is logged
  and skipped, and so is an error of the replace.
\<close>

definition staticRoute :: "env \<Rightarrow> Link \<Rightarrow> ReqRoute \<Rightarrow> exec" where
  "staticRoute env containerLink r =
     (case ParseCIDR env (Destination r) of
        Inl err \<Rightarrow> (Done, [])
      | Inr dst \<Rightarrow>
          (if Gateway r \<noteq> [] \<and> ParseIP env (Gateway r) = [] then (Done, [])
           else (let gw = (if Gateway r \<noteq> [] then ParseIP env (Gateway r) else []);
                     c = RouteReplace
                           \<lparr>LinkIndex = Index containerLink, Scope = 0, Dst = Some dst, Gw = gw\<rparr>
                 in (Done, [(c, outcome env c)]))))"

definition configureContainerNic :: "env \<Rightarrow> string \<Rightarrow> string \<Rightarrow> string \<Rightarrow> string \<Rightarrow> bool \<Rightarrow>
    ReqRoute list \<Rightarrow> nat list \<Rightarrow> string \<Rightarrow> int \<Rightarrow> string \<Rightarrow> int \<Rightarrow> exec" where
  "configureContainerNic env nicName ifName ipAddr gateway isDefaultRoute routes macAddr netns
       mtu nicType gwCheckMode =
     (case LinkByName env nicName of
        Inl err \<Rightarrow> (Failed (Errorf ''can not find container nic'' err), [])
      | Inr containerLink \<Rightarrow>
          seqs
            [invoke env (LinkSetAlias containerLink nicName) (\<lambda>err. err),
             invoke env (LinkSetNsFd containerLink netns) (Errorf ''failed to move link to netns''),
             invoke env (WithNetNSPath netns) (\<lambda>err. err),
             whenever (nicType \<noteq> InternalType env)
               (invoke env (LinkSetName containerLink ifName) (\<lambda>err. err)),
             whenever (CheckProtocol env ipAddr = ProtocolDual \<or>
                       CheckProtocol env ipAddr = ProtocolIPv6)
               (case Sysctl env ''net.ipv6.conf.all.disable_ipv6'' of
                  Inl err \<Rightarrow>
                    (Failed (Errorf ''failed to get sysctl net.ipv6.conf.all.disable_ipv6'' err), [])
                | Inr v \<Rightarrow>
                    whenever (v \<noteq> ''0'')
                      (invoke env (SysctlSet ''net.ipv6.conf.all.disable_ipv6'' ''0'')
                         (Errorf ''failed to enable ipv6 on all nic''))),
             (if nicType = InternalType env
              then seqs [addAdditionalNic env ifName,
                         configureAdditionalNic env ifName ipAddr,
                         configureNic env nicName ipAddr macAddr mtu]
              else configureNic env ifName ipAddr macAddr mtu),
             whenever isDefaultRoute (configureDefaultRoute env containerLink ipAddr gateway),
             seqs (map (staticRoute env containerLink) routes),
             whenever (gwCheckMode \<noteq> gatewayModeDisabled env)
               (waitNetworkReady env (if nicType \<noteq> InternalType env then ifName else nicName)
                  ipAddr gateway (gwCheckMode = gatewayCheckModeArping env) True)])"

subsection \<open>Uplink Bridge Migrator: configProviderNic and removeProviderNic\<close>

text \<open>\<^verbatim>\<open>(net.HardwareAddr).String\<close>: two hexadecimal digits a byte, colons between.\<close>

definition HardwareAddr_String :: "nat list \<Rightarrow> string" where
  "HardwareAddr_String hw = joinWith '':'' (map (\<lambda>b. [hexDigit (b div 16), hexDigit (b mod 16)]) hw)"

definition isAlbBond :: "Link \<Rightarrow> bool" where
  "isAlbBond link = (case Kind link of Bond mode \<Rightarrow> mode = BOND_MODE_BALANCE_ALB | _ \<Rightarrow> False)"

definition linkIsAlbBond :: "env \<Rightarrow> Link \<Rightarrow> error + bool" where
  "linkIsAlbBond env link =
     (if isAlbBond link then Inr True
      else (case Kind link of
              Vlan parentIndex \<Rightarrow>
                (case LinkByIndex env parentIndex of
                   Inl err \<Rightarrow> Inl err
                 | Inr parent \<Rightarrow> Inr (isAlbBond parent))
            | _ \<Rightarrow> Inr False))"

text \<open>
  One turn of the loop that moves the addresses, from the link \<open>src\<close> to the link
  \<open>dst\<close> (uplink to bridge in configProviderNic, bridge to uplink in
  removeProviderNic):

  \<^verbatim>\<open>
  if addr.IP.IsLinkLocalUnicast() { continue }
  if err = netlink.AddrDel(nic, &addr); err != nil {
      errMsg := fmt.Errorf("failed to delete address %s on nic %s: %v", ...)
      if errors.Is(err, syscall.EADDRNOTAVAIL) { klog.Warning(errMsg); continue }
      return 0, errMsg
  }
  if addr.Label != "" { addr.Label = brName + strings.TrimPrefix(addr.Label, nicName) }
  if err = netlink.AddrReplace(bridge, &addr); err != nil {
      return 0, fmt.Errorf("failed to replace address %s on OVS bridge %s: %v", ...)
  }
  \<close>
\<close>

definition relabel :: "string \<Rightarrow> string \<Rightarrow> Addr \<Rightarrow> Addr" where
  "relabel srcName dstName addr =
     (if Label addr \<noteq> [] then addr\<lparr>Label := dstName @ strings_TrimPrefix (Label addr) srcName\<rparr>
      else addr)"

definition moveAddr :: "env \<Rightarrow> Link \<Rightarrow> string \<Rightarrow> Link \<Rightarrow> string \<Rightarrow> Addr \<Rightarrow> exec" where
  "moveAddr env src srcName dst dstName addr =
     (if IsLinkLocalUnicast (IP addr) then (Done, [])
      else (case outcome env (AddrDel src addr) of
              Some err \<Rightarrow>
                (if err = EADDRNOTAVAIL then (Done, [(AddrDel src addr, Some err)])
                 else (Failed (Errorf ''failed to delete address'' err),
                       [(AddrDel src addr, Some err)]))
            | None \<Rightarrow>
                andThen (Done, [(AddrDel src addr, None)])
                  (invoke env (AddrReplace dst (relabel srcName dstName addr))
                     (Errorf ''failed to replace address''))))"

text \<open>
  The replay of the routes on the link \<open>target\<close>, scope by scope:

  \<^verbatim>\<open>
  for _, scope := range routeScopeOrders {
      for _, route := range routes {
          if route.Gw == nil && route.Dst != nil && route.Dst.IP.IsLinkLocalUnicast() { continue }
          if route.Scope == scope {
              route.LinkIndex = bridge.Attrs().Index
              if err = netlink.RouteReplace(&route); err != nil { return 0, fmt.Errorf(...) }
          }
      }
  }
  \<close>
\<close>

definition replayRoute :: "env \<Rightarrow> Link \<Rightarrow> nat \<Rightarrow> Route \<Rightarrow> exec" where
  "replayRoute env target scope route =
     (if Gw route = [] \<and> (case Dst route of Some d \<Rightarrow> IsLinkLocalUnicast (IP d) | None \<Rightarrow> False)
      then (Done, [])
      else whenever (Scope route = scope)
             (invoke env (RouteReplace (route\<lparr>LinkIndex := Index target\<rparr>))
                (Errorf ''failed to add/replace route'')))"

definition replayRoutes :: "env \<Rightarrow> Link \<Rightarrow> nat list \<Rightarrow> Route list \<Rightarrow> exec" where
  "replayRoutes env target scopes routes =
     seqs (map (\<lambda>scope. seqs (map (replayRoute env target scope) routes)) scopes)"

text \<open>
  configProviderNic returns \<^verbatim>\<open>(int, error)\<close>: the MTU of the uplink with a nil
  error, or 0 with the error.
\<close>

definition configProviderNic :: "env \<Rightarrow> string \<Rightarrow> string \<Rightarrow> int \<times> exec" where
  "configProviderNic env nicName brName =
     (case LinkByName env nicName of
        Inl err \<Rightarrow> (0, Failed (Errorf ''failed to get nic by name'' err), [])
      | Inr nic \<Rightarrow>
     (case LinkByName env brName of
        Inl err \<Rightarrow> (0, Failed (Errorf ''failed to get bridge by name'' err), [])
      | Inr bridge \<Rightarrow>
         (let sysctlDisableIPv6 = ''net.ipv6.conf.'' @ brName @ ''.disable_ipv6'';
              r = seqs
                [(case Sysctl env sysctlDisableIPv6 of
                    Inl err \<Rightarrow> (Failed (Errorf ''failed to get sysctl'' err), [])
                  | Inr disableIPv6 \<Rightarrow>
                      whenever (disableIPv6 \<noteq> ''0'')
                        (invoke env (SysctlSet sysctlDisableIPv6 ''0'')
                           (Errorf ''failed to enable ipv6 on OVS bridge''))),
                 (case AddrList env nic of
                    Inl err \<Rightarrow> (Failed (Errorf ''failed to get addresses on nic'' err), [])
                  | Inr addrs \<Rightarrow>
                 (case RouteList env nic of
                    Inl err \<Rightarrow> (Failed (Errorf ''failed to get routes on nic'' err), [])
                  | Inr routes \<Rightarrow>
                      seqs
                        [seqs (map (moveAddr env nic nicName bridge brName) addrs),
                         (case linkIsAlbBond env nic of
                            Inl err \<Rightarrow> (Failed err, [])
                          | Inr albBond \<Rightarrow>
                              whenever (\<not> albBond)
                                (invoke env
                                   (ovs_Exec [''set'', ''bridge'', brName,
                                      ''other-config:hwaddr=\"'' @
                                        HardwareAddr_String (HardwareAddr nic) @ ''\"''])
                                   (Errorf ''failed to set MAC address of OVS bridge''))),
                         invoke env (LinkSetMTU bridge (MTU nic))
                           (Errorf ''failed to set MTU of OVS bridge''),
                         invoke env (LinkSetUp bridge) (Errorf ''failed to set OVS bridge up''),
                         replayRoutes env bridge (routeScopeOrders env) routes,
                         invoke env
                           (ovs_Exec [MayExist env, ''add-port'', brName, nicName, ''--'', ''set'',
                              ''port'', nicName, ''external_ids:vendor='' @ CniTypeName env])
                           (Errorf ''failed to add nic to OVS bridge''),
                         invoke env (LinkSetUp nic) (Errorf ''failed to set link up'')]))]
          in (if fst r = Done then MTU nic else 0, r))))"

definition removeProviderNic :: "env \<Rightarrow> string \<Rightarrow> string \<Rightarrow> exec" where
  "removeProviderNic env nicName brName =
     (case LinkByName env nicName of
        Inl err \<Rightarrow>
          (if err = LinkNotFoundError then (Done, [])
           else (Failed (Errorf ''failed to get nic by name'' err), []))
      | Inr nic \<Rightarrow>
     (case LinkByName env brName of
        Inl err \<Rightarrow> (Failed (Errorf ''failed to get bridge by name'' err), [])
      | Inr bridge \<Rightarrow>
     (case AddrList env bridge of
        Inl err \<Rightarrow> (Failed (Errorf ''failed to get addresses on bridge'' err), [])
      | Inr addrs \<Rightarrow>
     (case RouteList env bridge of
        Inl err \<Rightarrow> (Failed (Errorf ''failed to get routes on bridge'' err), [])
      | Inr routes \<Rightarrow>
          seqs
            [invoke env (ovs_Exec [IfExists env, ''del-port'', brName, nicName])
               (Errorf ''failed to remove nic from OVS bridge''),
             seqs (map (moveAddr env bridge brName nic nicName) addrs),
             invoke env (LinkSetDown bridge) (Errorf ''failed to set OVS bridge down''),
             replayRoutes env nic [SCOPE_HOST, SCOPE_LINK, SCOPE_SITE, SCOPE_UNIVERSE] routes]))))"

subsection \<open>Device Provisioner: setupVethPair\<close>

text \<open>
  setupVethPair returns \<^verbatim>\<open>(string, string, error)\<close>: the two names next to how
  the call ended. \<^verbatim>\<open>veth.MTU\<close> keeps its zero value unless \<open>mtu > 0\<close>.

  \<^verbatim>\<open>
  if err = netlink.LinkAdd(&veth); err != nil {
      if err := netlink.LinkDel(&veth); err != nil {
          klog.Errorf("failed to delete veth %v", err)
          return "", "", err
      }
      return "", "", fmt.Errorf("failed to create veth for %v", err)
  }
  return hostNicName, containerNicName, nil
  \<close>
\<close>

definition setupVethPair :: "env \<Rightarrow> string \<Rightarrow> string \<Rightarrow> int \<Rightarrow> (string \<times> string) \<times> exec" where
  "setupVethPair env containerID ifName mtu =
     (case generateNicName containerID ifName of
        None \<Rightarrow> (([], []), Panic, [])
      | Some (hostNicName, containerNicName) \<Rightarrow>
          (let veth = Veth hostNicName containerNicName (if 0 < mtu then mtu else 0) in
           case outcome env (LinkAdd veth) of
             Some err \<Rightarrow>
               (case outcome env (LinkDel veth) of
                  Some err' \<Rightarrow>
                    (([], []), Failed err', [(LinkAdd veth, Some err), (LinkDel veth, Some err')])
                | None \<Rightarrow>
                    (([], []), Failed (Errorf ''failed to create veth for'' err),
                     [(LinkAdd veth, Some err), (LinkDel veth, None)]))
           | None \<Rightarrow> ((hostNicName, containerNicName), Done, [(LinkAdd veth, None)])))"

subsection \<open>Residual Port Reaper: markAndCleanInternalPort\<close>

text \<open>
  The package variable \<^verbatim>\<open>lastNoPodOvsPort\<close> is a \<^verbatim>\<open>map[string]bool\<close> that only
  ever holds \<^verbatim>\<open>true\<close>: a set of port names, passed in and returned. The list
  \<open>residualPorts\<close> is what \<^verbatim>\<open>ovs.GetResidualInternalPorts()\<close> returned.

  \<^verbatim>\<open>
  for _, portName := range residualPorts {
      if !lastNoPodOvsPort[portName] {
          noPodOvsPort[portName] = true
      } else {
          output, err := ovs.Exec(ovs.IfExists, "--with-iface", "del-port", "br-int", portName)
          if err != nil { return fmt.Errorf("failed to delete ovs port %v, %q", err, output) }
      }
  }
  \<close>
\<close>

definition delPort :: "env \<Rightarrow> string \<Rightarrow> syscall" where
  "delPort env portName =
     ovs_Exec [IfExists env, ''--with-iface'', ''del-port'', ''br-int'', portName]"

fun gcPorts :: "env \<Rightarrow> string set \<Rightarrow> string list \<Rightarrow> string set \<Rightarrow> exec \<times> string set" where
  "gcPorts env lastNoPodOvsPort [] noPodOvsPort = ((Done, []), noPodOvsPort)"
| "gcPorts env lastNoPodOvsPort (portName # rest) noPodOvsPort =
     (if portName \<notin> lastNoPodOvsPort
      then gcPorts env lastNoPodOvsPort rest (insert portName noPodOvsPort)
      else (case outcome env (delPort env portName) of
              Some err \<Rightarrow>
                ((Failed (Errorf ''failed to delete ovs port'' err), [(delPort env portName, Some err)]),
                 noPodOvsPort)
            | None \<Rightarrow>
                (case gcPorts env lastNoPodOvsPort rest noPodOvsPort of
                   ((st, tr), m) \<Rightarrow> ((st, (delPort env portName, None) # tr), m))))"

text \<open>
  \<^verbatim>\<open>
  residualPorts := ovs.GetResidualInternalPorts()
  if len(residualPorts) == 0 { return nil }
  noPodOvsPort := map[string]bool{}
  for ... { ... }
  lastNoPodOvsPort = noPodOvsPort
  return nil
  \<close>
  The result is how the sweep ended with the calls it made, and the new value of
  \<^verbatim>\<open>lastNoPodOvsPort\<close>: unchanged on the two early returns.
\<close>

definition markAndCleanInternalPort :: "env \<Rightarrow> string list \<Rightarrow> string set \<Rightarrow> exec \<times> string set" where
  "markAndCleanInternalPort env residualPorts lastNoPodOvsPort =
     (if length residualPorts = 0 then ((Done, []), lastNoPodOvsPort)
      else (case gcPorts env lastNoPodOvsPort residualPorts {} of
              ((Done, tr), noPodOvsPort) \<Rightarrow> ((Done, tr), noPodOvsPort)
            | ((st, tr), noPodOvsPort) \<Rightarrow> ((st, tr), lastNoPodOvsPort)))"

text \<open>
  The timer of \<^verbatim>\<open>Run\<close> calls markAndCleanInternalPort every five minutes: a sequence
  of sweeps, given by the residual ports each one observes, from a first value of
  \<^verbatim>\<open>lastNoPodOvsPort\<close>. The result lists what each sweep did.
\<close>

fun reaperSweeps :: "env \<Rightarrow> string list list \<Rightarrow> string set \<Rightarrow> exec list" where
  "reaperSweeps env [] lastNoPodOvsPort = []"
| "reaperSweeps env (residualPorts # later) lastNoPodOvsPort =
     (case markAndCleanInternalPort env residualPorts lastNoPodOvsPort of
        (x, lastNoPodOvsPort') \<Rightarrow> x # reaperSweeps env later lastNoPodOvsPort')"

text \<open>The ports a sweep deleted: the last argument of every del-port that succeeded.\<close>

definition deletedPorts :: "exec \<Rightarrow> string list" where
  "deletedPorts x =
     concat (map (\<lambda>ev. case ev of (ovs_Exec args, None) \<Rightarrow> [last args] | _ \<Rightarrow> []) (snd x))"

subsection \<open>A shape of traces\<close>

text \<open>
  Used in the proofs about the uplink migration: in the trace \<open>tr\<close>, every
  AddrReplace is on the link \<open>dst\<close>, carries \<open>f a\<close> for an address \<open>a\<close> of the
  set \<open>A\<close>, and comes right after the AddrDel of \<open>a\<close> on the link \<open>src\<close> that
  succeeded.
\<close>

definition delThenReplace :: "Link \<Rightarrow> Link \<Rightarrow> (Addr \<Rightarrow> Addr) \<Rightarrow> Addr set \<Rightarrow> event list \<Rightarrow> bool" where
  "delThenReplace src dst f A tr \<longleftrightarrow>
     (\<forall>pre l a' r post. tr = pre @ (AddrReplace l a', r) # post \<longrightarrow>
        (\<exists>pre' a. pre = pre' @ [(AddrDel src a, None)] \<and> l = dst \<and> a' = f a \<and> a \<in> A))"

text \<open>What sequencing keeps: the shape, and no AddrReplace in front.\<close>

definition shaped :: "Link \<Rightarrow> Link \<Rightarrow> (Addr \<Rightarrow> Addr) \<Rightarrow> Addr set \<Rightarrow> exec \<Rightarrow> bool" where
  "shaped src dst f A x \<longleftrightarrow>
     delThenReplace src dst f A (snd x) \<and>
     (\<forall>l a e rest. snd x \<noteq> (AddrReplace l a, e) # rest)"

subsection \<open>Default routes in a trace\<close>

text \<open>
  A call that replaces a default route: a RouteReplace whose destination is 0.0.0.0/0
  or ::/0.
\<close>

definition replacesDefaultRoute :: "event \<Rightarrow> bool" where
  "replacesDefaultRoute ev =
     (case fst ev of
        RouteReplace r \<Rightarrow> Dst r = Some defaultNet4 \<or> Dst r = Some defaultNet6
      | _ \<Rightarrow> False)"

subsection \<open>Concrete environments\<close>

text \<open>
  Environments on which the theorems below are instantiated. In \<open>env_ok\<close> no link
  exists, nothing parses and every call with an effect succeeds; the others change it
  where an example needs it.
\<close>

definition env_ok :: env where
  "env_ok =
     \<lparr>LinkByName = (\<lambda>n. Inl LinkNotFoundError),
      LinkByIndex = (\<lambda>i. Inl LinkNotFoundError),
      AddrList = (\<lambda>l. Inr []),
      RouteList = (\<lambda>l. Inr []),
      Sysctl = (\<lambda>k. Inr ''0''),
      ParseAddr = (\<lambda>s. Inl (OtherError ''invalid CIDR address'')),
      ParseCIDR = (\<lambda>s. Inl (OtherError ''invalid CIDR address'')),
      ParseIP = (\<lambda>s. []),
      CheckProtocol = (\<lambda>s. ProtocolInvalid),
      routeScopeOrders = [SCOPE_LINK, SCOPE_SITE, SCOPE_UNIVERSE],
      gatewayCheckMaxRetry = 200,
      gatewayModeDisabled = 0,
      gatewayCheckModeArping = 2,
      InternalType = ''internal-port'',
      MayExist = ''--may-exist'',
      IfExists = ''--if-exists'',
      CniTypeName = ''kube-ovn'',
      outcome = (\<lambda>c. None)\<rparr>"

text \<open>
  A link \<open>eth0\<close> that is up and holds 169.254.1.1/16 (link-local), 10.0.0.4/24 and
  10.0.0.5/24; the two requested strings parse to the addresses 10.0.0.5/24 and
  10.0.0.6/24 (\<^verbatim>\<open>netlink.ParseAddr\<close>), written here with 4-byte IPs like the
  addresses the kernel lists.
\<close>

definition eth0_link :: Link where
  "eth0_link =
     \<lparr>Name = ''eth0'', Index = 2, MTU = 1400, HardwareAddr = [0, 0, 0, 170, 187, 204],
      LinkOperState = OperUp, Kind = Device\<rparr>"

definition ip4_24 :: "nat \<Rightarrow> nat \<Rightarrow> nat \<Rightarrow> nat \<Rightarrow> Addr" where
  "ip4_24 a b c d = \<lparr>IP = [a, b, c, d], Mask = [255, 255, 255, 0], Label = []\<rparr>"

definition env_reconcile :: env where
  "env_reconcile =
     env_ok
       \<lparr>LinkByName := (\<lambda>n. if n = ''eth0'' then Inr eth0_link else Inl LinkNotFoundError),
        AddrList := (\<lambda>l. Inr [\<lparr>IP = [169, 254, 1, 1], Mask = [255, 255, 0, 0], Label = []\<rparr>,
                               ip4_24 10 0 0 4, ip4_24 10 0 0 5]),
        ParseAddr := (\<lambda>s. if s = ''10.0.0.5/24'' then Inr (ip4_24 10 0 0 5)
                           else if s = ''10.0.0.6/24'' then Inr (ip4_24 10 0 0 6)
                           else Inl (OtherError ''invalid CIDR address''))\<rparr>"

text \<open>
  An uplink \<open>eth1\<close> with the address 192.168.1.10/24 and a bridge \<open>br-ex\<close>; in
  \<open>env_replace_fails\<close> the kernel refuses to put the address on the bridge.
\<close>

definition eth1_link :: Link where
  "eth1_link =
     \<lparr>Name = ''eth1'', Index = 3, MTU = 1500, HardwareAddr = [0, 0, 0, 1, 2, 3],
      LinkOperState = OperUp, Kind = Device\<rparr>"

definition br_link :: Link where
  "br_link =
     \<lparr>Name = ''br-ex'', Index = 7, MTU = 1500, HardwareAddr = [0, 0, 0, 4, 5, 6],
      LinkOperState = OperDown, Kind = Device\<rparr>"

definition env_uplink :: env where
  "env_uplink =
     env_ok
       \<lparr>LinkByName := (\<lambda>n. if n = ''eth1'' then Inr eth1_link
                            else if n = ''br-ex'' then Inr br_link
                            else Inl LinkNotFoundError),
        AddrList := (\<lambda>l. if l = eth1_link then Inr [ip4_24 192 168 1 10] else Inr [])\<rparr>"

definition env_replace_fails :: env where
  "env_replace_fails =
     env_uplink
       \<lparr>outcome := (\<lambda>c. case c of AddrReplace l a \<Rightarrow> Some (OtherError ''operation not permitted'')
                          | _ \<Rightarrow> None)\<rparr>"

text \<open>An environment in which creating a link fails, and removing it succeeds.\<close>

definition env_linkadd_fails :: env where
  "env_linkadd_fails =
     env_ok\<lparr>outcome := (\<lambda>c. case c of LinkAdd l \<Rightarrow> Some (OtherError ''file exists'')
                               | _ \<Rightarrow> None)\<rparr>"

text \<open>
  A dual-stack pod: \<open>util.CheckProtocol\<close> on the strings of the examples, and the
  gateways as \<open>net.ParseIP\<close> reads them. In \<open>env_ping_fails\<close> no gateway answers
  the echo probes.
\<close>

definition env_dual :: env where
  "env_dual =
     env_ok
       \<lparr>LinkByName := (\<lambda>n. if n = ''eth0'' then Inr eth0_link else Inl LinkNotFoundError),
        ParseIP := (\<lambda>s. if s = ''10.0.0.1'' then [10, 0, 0, 1]
                         else if s = ''fd00::1'' then [253, 0, 0, 0, 0, 0, 0, 0, 0, 0, 0, 0, 0, 0, 0, 1]
                         else []),
        CheckProtocol := (\<lambda>s. if s = ''10.0.0.5/24,fd00::5/64'' then ProtocolDual
                               else if s = ''10.0.0.5/24'' \<or> s = ''10.0.0.1'' then ProtocolIPv4
                               else if s = ''fd00::5/64'' \<or> s = ''fd00::1'' then ProtocolIPv6
                               else ProtocolInvalid)\<rparr>"

definition env_ping_fails :: env where
  "env_ping_fails =
     env_dual
       \<lparr>outcome := (\<lambda>c. case c of pingGateway gw src verbose \<Rightarrow> Some (OtherError ''no response from gateway'')
                          | _ \<Rightarrow> None)\<rparr>"

text \<open>
  The container end of a veth pair, found under its derived name on the host and under
  \<open>eth0\<close> once it is renamed inside the namespace; it has no address yet.
\<close>

definition veth_link :: Link where
  "veth_link =
     \<lparr>Name = ''0123456789ab_c'', Index = 9, MTU = 1400, HardwareAddr = [0, 0, 0, 17, 34, 51],
      LinkOperState = OperDown, Kind = Device\<rparr>"

definition env_attach :: env where
  "env_attach =
     env_dual
       \<lparr>LinkByName := (\<lambda>n. if n = ''0123456789ab_c'' then Inr veth_link
                            else if n = ''eth0'' then Inr (veth_link\<lparr>Name := ''eth0''\<rparr>)
                            else Inl LinkNotFoundError),
        ParseAddr := (\<lambda>s. if s = ''10.0.0.5/24'' then Inr (ip4_24 10 0 0 5)
                           else if s = ''fd00::5/64''
                           then Inr \<lparr>IP = [253, 0, 0, 0, 0, 0, 0, 0, 0, 0, 0, 0, 0, 0, 0, 5],
                                    Mask = [255, 255, 255, 255, 255, 255, 255, 255, 0, 0, 0, 0, 0, 0, 0, 0],
                                    Label = []\<rparr>
                           else Inl (OtherError ''invalid CIDR address''))\<rparr>"

text \<open>
  The same pod when the request carries an additional static route to 0.0.0.0/0 via
  10.0.0.254, which \<open>net.ParseCIDR\<close> and \<open>net.ParseIP\<close> read.
\<close>

definition env_static_default :: env where
  "env_static_default =
     env_attach
       \<lparr>ParseCIDR := (\<lambda>s. if s = ''0.0.0.0/0'' then Inr defaultNet4
                           else Inl (OtherError ''invalid CIDR address'')),
        ParseIP := (\<lambda>s. if s = ''10.0.0.1'' then [10, 0, 0, 1]
                         else if s = ''10.0.0.254'' then [10, 0, 0, 254]
                         else if s = ''fd00::1'' then [253, 0, 0, 0, 0, 0, 0, 0, 0, 0, 0, 0, 0, 0, 0, 1]
                         else [])\<rparr>"

section \<open>Properties\<close>

subsection \<open>Go strings\<close>

lemma strings_Split_not_Nil [simp]: "strings_Split sep s \<noteq> []"
  by (induction s) (auto split: list.split)

subsection \<open>Name Deriver\<close>

lemma slice_to_Some:
  "slice_to s hi = Some p \<longleftrightarrow> 0 \<le> hi \<and> hi \<le> int (length s) \<and> p = take (nat hi) s"
  by (auto simp: slice_to_def)

lemma slice_to_None:
  "slice_to s hi = None \<longleftrightarrow> hi < 0 \<or> int (length s) < hi"
  by (auto simp: slice_to_def)

lemma generateNicName_eth0:
  "generateNicName c ''eth0'' = Some (h, k) \<longleftrightarrow>
     12 \<le> length c \<and> h = take 12 c @ ''_h'' \<and> k = take 12 c @ ''_c''"
  by (auto simp: generateNicName_def slice_to_Some slice_to_None split: option.splits)

lemma generateNicName_other:
  "i \<noteq> ''eth0'' \<Longrightarrow> generateNicName c i = Some (h, k) \<longleftrightarrow>
     length i \<le> 12 \<and> 12 - length i \<le> length c \<and>
     h = take (12 - length i) c @ ''_'' @ i @ ''_h'' \<and>
     k = take (12 - length i) c @ ''_'' @ i @ ''_c''"
  by (auto simp: generateNicName_def slice_to_Some slice_to_None nat_diff_distrib'
      split: option.splits)

lemma generateNicName_None:
  "generateNicName c i = None \<longleftrightarrow>
     (if i = ''eth0'' then length c < 12 else 12 < length i \<or> length c + length i < 12)"
  by (auto simp: generateNicName_def slice_to_Some slice_to_None split: option.splits)

text \<open>
  Two derived names with prefixes of different lengths can only agree when the
  container identity has an underscore where the shorter prefix ends.
\<close>

lemma prefix_sep_neq:
  assumes le: "length a \<le> length b" and b12: "length b \<le> 12"
    and c: "12 - length a \<le> length c"
    and ne: "a \<noteq> b" and us: "CHR ''_'' \<notin> set (take 12 c)"
  shows "take (12 - length a) c @ CHR ''_'' # a @ s \<noteq> take (12 - length b) c @ CHR ''_'' # b @ s"
proof
  assume eq: "take (12 - length a) c @ CHR ''_'' # a @ s = take (12 - length b) c @ CHR ''_'' # b @ s"
  show False
  proof (cases "length a = length b")
    case True
    with eq have "a @ s = b @ s" by simp
    with ne show False by simp
  next
    case False
    with le have lt: "length a < length b" by simp
    define k where "k = 12 - length b"
    have k: "k < 12 - length a" "k < length c" using lt b12 c by (auto simp: k_def)
    have "(take (12 - length a) c @ CHR ''_'' # a @ s) ! k = c ! k"
      using k by (simp add: nth_append)
    moreover have "(take k c @ CHR ''_'' # b @ s) ! k = CHR ''_''"
      using k by (simp add: nth_append)
    ultimately have "c ! k = CHR ''_''" using eq by (simp add: k_def)
    moreover have "c ! k \<in> set (take 12 c)"
    proof -
      have "k < length (take 12 c)" using k by (simp add: k_def)
      moreover have "take 12 c ! k = c ! k" using k by (simp add: k_def)
      ultimately show ?thesis by (metis nth_mem)
    qed
    ultimately show False using us by simp
  qed
qed

lemma names_neq_non_primary:
  assumes i1: "i1 \<noteq> ''eth0''" and i2: "i2 \<noteq> ''eth0''"
    and g1: "generateNicName c i1 = Some (h1, k1)"
    and g2: "generateNicName c i2 = Some (h2, k2)"
    and ne: "i1 \<noteq> i2" and us: "CHR ''_'' \<notin> set (take 12 c)"
  shows "h1 \<noteq> h2 \<and> k1 \<noteq> k2"
proof -
  from g1 i1 have a: "length i1 \<le> 12" "12 - length i1 \<le> length c"
    "h1 = take (12 - length i1) c @ CHR ''_'' # i1 @ ''_h''"
    "k1 = take (12 - length i1) c @ CHR ''_'' # i1 @ ''_c''"
    by (simp_all add: generateNicName_other)
  from g2 i2 have b: "length i2 \<le> 12" "12 - length i2 \<le> length c"
    "h2 = take (12 - length i2) c @ CHR ''_'' # i2 @ ''_h''"
    "k2 = take (12 - length i2) c @ CHR ''_'' # i2 @ ''_c''"
    by (simp_all add: generateNicName_other)
  show ?thesis
  proof (cases "length i1 \<le> length i2")
    case True
    from prefix_sep_neq [OF True b(1) a(2) ne us] show ?thesis
      unfolding a b by blast
  next
    case False
    then have le: "length i2 \<le> length i1" by simp
    from ne have ne': "i2 \<noteq> i1" by simp
    from prefix_sep_neq [OF le a(1) b(2) ne' us] show ?thesis
      unfolding a b by metis
  qed
qed

lemma names_neq_primary:
  assumes i2: "i2 \<noteq> ''eth0''"
    and g1: "generateNicName c ''eth0'' = Some (h1, k1)"
    and g2: "generateNicName c i2 = Some (h2, k2)"
  shows "h1 \<noteq> h2 \<and> k1 \<noteq> k2"
proof -
  from g1 have "length h1 = 14" "length k1 = 14"
    by (auto simp: generateNicName_eth0)
  moreover from g2 i2 have "length h2 = 15" "length k2 = 15"
    by (auto simp: generateNicName_other)
  ultimately show ?thesis by auto
qed

text \<open>
  C5 (as amended). generateNicName is a function of its two arguments and follows the
  naming rule: for the primary interface \<open>eth0\<close> the names are the first 12 bytes of
  the container identity followed by \<open>_h\<close> and \<open>_c\<close>; for another interface name of
  at most 12 bytes they are the first \<open>12 - len(ifname)\<close> bytes, an underscore, the
  interface name, and \<open>_h\<close> or \<open>_c\<close>. When the first 12 bytes of the container
  identity hold no underscore, two distinct interface names for which names are derived
  never give the same host name nor the same container name.
\<close>

theorem generateNicName_rule_and_distinct:
  "(12 \<le> length containerID \<longrightarrow>
      generateNicName containerID ''eth0'' =
        Some (take 12 containerID @ ''_h'', take 12 containerID @ ''_c'')) \<and>
   (ifname \<noteq> ''eth0'' \<and> length ifname \<le> 12 \<and> 12 - length ifname \<le> length containerID \<longrightarrow>
      generateNicName containerID ifname =
        Some (take (12 - length ifname) containerID @ ''_'' @ ifname @ ''_h'',
              take (12 - length ifname) containerID @ ''_'' @ ifname @ ''_c'')) \<and>
   (generateNicName containerID if1 = Some (h1, c1) \<and>
    generateNicName containerID if2 = Some (h2, c2) \<and>
    if1 \<noteq> if2 \<and> CHR ''_'' \<notin> set (take 12 containerID) \<longrightarrow>
      h1 \<noteq> h2 \<and> c1 \<noteq> c2)"
proof (intro conjI impI)
  assume "12 \<le> length containerID"
  then show "generateNicName containerID ''eth0'' =
      Some (take 12 containerID @ ''_h'', take 12 containerID @ ''_c'')"
    by (simp add: generateNicName_eth0)
next
  assume "ifname \<noteq> ''eth0'' \<and> length ifname \<le> 12 \<and> 12 - length ifname \<le> length containerID"
  then show "generateNicName containerID ifname =
      Some (take (12 - length ifname) containerID @ ''_'' @ ifname @ ''_h'',
            take (12 - length ifname) containerID @ ''_'' @ ifname @ ''_c'')"
    by (simp add: generateNicName_other)
next
  assume h: "generateNicName containerID if1 = Some (h1, c1) \<and>
    generateNicName containerID if2 = Some (h2, c2) \<and>
    if1 \<noteq> if2 \<and> CHR ''_'' \<notin> set (take 12 containerID)"
  then have g1: "generateNicName containerID if1 = Some (h1, c1)"
    and g2: "generateNicName containerID if2 = Some (h2, c2)"
    and ne: "if1 \<noteq> if2" and us: "CHR ''_'' \<notin> set (take 12 containerID)"
    by simp_all
  have "h1 \<noteq> h2 \<and> c1 \<noteq> c2"
  proof (cases "if1 = ''eth0''")
    case True
    with ne have n2: "if2 \<noteq> ''eth0''" by simp
    from names_neq_primary [OF n2 g1 [unfolded True] g2] show ?thesis .
  next
    case n1: False
    show ?thesis
    proof (cases "if2 = ''eth0''")
      case True
      from names_neq_primary [OF n1 g2 [unfolded True] g1] show ?thesis by auto
    next
      case False
      from names_neq_non_primary [OF n1 False g1 g2 ne us] show ?thesis .
    qed
  qed
  then show "h1 \<noteq> h2" and "c1 \<noteq> c2" by simp_all
qed

theorem generateNicName_rule_and_distinct_witness:
  "generateNicName ''0123456789abcdef'' ''eth0'' = Some (''0123456789ab_h'', ''0123456789ab_c'') \<and>
   generateNicName ''0123456789abcdef'' ''net1'' = Some (''01234567_net1_h'', ''01234567_net1_c'') \<and>
   ''0123456789ab_h'' \<noteq> ''01234567_net1_h'' \<and> ''0123456789ab_c'' \<noteq> ''01234567_net1_c''"
  using generateNicName_rule_and_distinct [of "''0123456789abcdef''" "''net1''" "''eth0''"
      "''0123456789ab_h''" "''0123456789ab_c''" "''net1''" "''01234567_net1_h''" "''01234567_net1_c''"]
  by (simp add: generateNicName_def slice_to_def)

text \<open>
  The claim as stated fails: with an underscore in the container identity, the interface
  names \<open>x\<close> and \<open>a_x\<close> give the same pair of names.
\<close>

theorem generateNicName_collision:
  "''x'' \<noteq> ''a_x'' \<and>
   generateNicName ''012345678_abcdef'' ''x'' = Some (''012345678_a_x_h'', ''012345678_a_x_c'') \<and>
   generateNicName ''012345678_abcdef'' ''a_x'' = Some (''012345678_a_x_h'', ''012345678_a_x_c'')"
  by (simp add: generateNicName_def slice_to_def)

text \<open>
  C9 (as amended). generateNicName panics exactly when the slice bound is out of range:
  for \<open>eth0\<close> when the container identity has fewer than 12 bytes; for another
  interface name when the name has more than 12 bytes or the container identity has
  fewer than \<open>12 - len(ifname)\<close> bytes. So a container identity of at least 12 bytes
  with an interface name of at most 12 bytes never panics, and with an interface name
  of exactly 12 bytes the derived names do not depend on the container identity.
\<close>

theorem generateNicName_panics_iff:
  "(generateNicName containerID ifname = None \<longleftrightarrow>
      (if ifname = ''eth0'' then length containerID < 12
       else 12 < length ifname \<or> length containerID + length ifname < 12)) \<and>
   (12 \<le> length containerID \<and> length ifname \<le> 12 \<longrightarrow>
      generateNicName containerID ifname \<noteq> None) \<and>
   (length ifname = 12 \<longrightarrow>
      generateNicName containerID ifname = Some (''_'' @ ifname @ ''_h'', ''_'' @ ifname @ ''_c''))"
proof (intro conjI impI)
  show "generateNicName containerID ifname = None \<longleftrightarrow>
      (if ifname = ''eth0'' then length containerID < 12
       else 12 < length ifname \<or> length containerID + length ifname < 12)"
    by (rule generateNicName_None)
next
  assume "12 \<le> length containerID \<and> length ifname \<le> 12"
  then show "generateNicName containerID ifname \<noteq> None"
    by (auto simp: generateNicName_None)
next
  assume l: "length ifname = 12"
  then have "ifname \<noteq> ''eth0''" by auto
  with l show "generateNicName containerID ifname =
      Some (''_'' @ ifname @ ''_h'', ''_'' @ ifname @ ''_c'')"
    by (simp add: generateNicName_other)
qed

theorem generateNicName_panics_iff_witness:
  "generateNicName ''0123456789abcdef'' ''net1'' \<noteq> None \<and>
   generateNicName ''0123456789abcdef'' ''abcdefghijkl'' =
     Some (''_abcdefghijkl_h'', ''_abcdefghijkl_c'') \<and>
   generateNicName ''0123456789abcdef'' ''abcdefghijklm'' = None \<and>
   generateNicName ''0123456'' ''eth0'' = None"
  using generateNicName_panics_iff [of "''0123456789abcdef''" "''net1''"]
    generateNicName_panics_iff [of "''0123456789abcdef''" "''abcdefghijkl''"]
    generateNicName_panics_iff [of "''0123456789abcdef''" "''abcdefghijklm''"]
    generateNicName_panics_iff [of "''0123456''" "''eth0''"]
  by simp

text \<open>
  The claim as stated fails: a container identity of 8 bytes is shorter than 12, and
  with the interface name \<open>net1\<close> the slice bound is 8, so nothing panics.
\<close>

theorem generateNicName_short_id_no_panic:
  "length ''abcdefgh'' < 12 \<and>
   generateNicName ''abcdefgh'' ''net1'' = Some (''abcdefgh_net1_h'', ''abcdefgh_net1_c'')"
  by (simp add: generateNicName_def slice_to_def)


subsection \<open>Sequencing\<close>

lemma andThen_simps [simp]:
  "andThen (Done, tr) k = (fst k, tr @ snd k)"
  "andThen (Failed e, tr) k = (Failed e, tr)"
  "andThen (Panic, tr) k = (Panic, tr)"
  by (simp_all add: andThen_def)

lemma seqs_Nil [simp]: "seqs [] = (Done, [])"
  by (simp add: seqs_def)

lemma seqs_Cons [simp]: "seqs (r # rs) = andThen r (seqs rs)"
  by (simp add: seqs_def)

lemma whenever_simps [simp]:
  "whenever True r = r"
  "whenever False r = (Done, [])"
  by (simp_all add: whenever_def)

lemma fst_whenever_Done: "fst (whenever b r) = Done \<longleftrightarrow> (b \<longrightarrow> fst r = Done)"
  by (cases b) simp_all

lemma fst_andThen_Done: "fst (andThen r k) = Done \<longleftrightarrow> fst r = Done \<and> fst k = Done"
  by (cases r; cases "fst r") (auto simp: andThen_def)

lemma snd_andThen_Done: "fst r = Done \<Longrightarrow> snd (andThen r k) = snd r @ snd k"
  by (simp add: andThen_def)

lemma andThen_not_Done: "fst r \<noteq> Done \<Longrightarrow> andThen r k = r"
  by (cases "fst r") (auto simp: andThen_def)

lemma seqs_Done_iff: "fst (seqs rs) = Done \<longleftrightarrow> (\<forall>r\<in>set rs. fst r = Done)"
  by (induction rs) (auto simp: fst_andThen_Done)

lemma seqs_Done_trace: "fst (seqs rs) = Done \<Longrightarrow> snd (seqs rs) = concat (map snd rs)"
  by (induction rs) (auto simp: fst_andThen_Done snd_andThen_Done)

lemma invoke_fst: "fst (invoke env c w) = Done \<longleftrightarrow> outcome env c = None"
  by (auto simp: invoke_def split: option.splits)

lemma invoke_snd [simp]: "snd (invoke env c w) = [(c, outcome env c)]"
  by (simp add: invoke_def)

subsection \<open>Residual Port Reaper\<close>

lemma last_delPort: "deletedPorts (st, map (\<lambda>p. (delPort env p, None)) ps) = ps"
  by (induction ps) (auto simp: deletedPorts_def delPort_def)

lemma gcPorts_ok:
  assumes "\<forall>p\<in>set ports. outcome env (delPort env p) = None"
  shows "gcPorts env mem ports m =
           ((Done, map (\<lambda>p. (delPort env p, None)) (filter (\<lambda>p. p \<in> mem) ports)),
            m \<union> (set ports - mem))"
  using assms by (induction ports arbitrary: m) auto

lemma markAndClean_ok:
  assumes "ports \<noteq> []" and "\<forall>p\<in>set ports. outcome env (delPort env p) = None"
  shows "markAndCleanInternalPort env ports mem =
           ((Done, map (\<lambda>p. (delPort env p, None)) (filter (\<lambda>p. p \<in> mem) ports)),
            set ports - mem)"
  using assms by (simp add: markAndCleanInternalPort_def gcPorts_ok)

lemma reaperSweeps_length [simp]: "length (reaperSweeps env sweeps mem) = length sweeps"
  by (induction sweeps arbitrary: mem) (auto split: prod.splits)

text \<open>
  When every sweep observes some port and no deletion fails, a port observed on a sweep
  is deleted on it exactly when it was observed on the sweep before and not deleted
  there.
\<close>

lemma reaperSweeps_step:
  assumes "\<forall>r\<in>set sweeps. r \<noteq> []"
    and "\<forall>r\<in>set sweeps. \<forall>p\<in>set r. outcome env (delPort env p) = None"
    and "Suc n < length sweeps"
  shows "deletedPorts (reaperSweeps env sweeps mem ! Suc n) =
           filter (\<lambda>p. p \<in> set (sweeps ! n) \<and>
                        p \<notin> set (deletedPorts (reaperSweeps env sweeps mem ! n)))
             (sweeps ! Suc n)"
  using assms
proof (induction n arbitrary: sweeps mem)
  case 0
  then obtain r1 r2 rest where s: "sweeps = r1 # r2 # rest"
    by (cases sweeps; cases "tl sweeps") auto
  with 0 have ok: "r1 \<noteq> []" "r2 \<noteq> []"
    "\<forall>p\<in>set r1. outcome env (delPort env p) = None" "\<forall>p\<in>set r2. outcome env (delPort env p) = None"
    by auto
  show ?case
    unfolding s
    by (simp add: markAndClean_ok [OF ok(1) ok(3)] markAndClean_ok [OF ok(2) ok(4)] last_delPort)
      (rule filter_cong, auto)
next
  case (Suc n)
  then obtain r1 rest where s: "sweeps = r1 # rest" by (cases sweeps) auto
  with Suc.prems have ok: "r1 \<noteq> []" "\<forall>p\<in>set r1. outcome env (delPort env p) = None" by auto
  from Suc.prems s have rest: "\<forall>r\<in>set rest. r \<noteq> []"
    "\<forall>r\<in>set rest. \<forall>p\<in>set r. outcome env (delPort env p) = None" "Suc n < length rest"
    by auto
  show ?case
    unfolding s
    by (simp add: markAndClean_ok [OF ok] Suc.IH [OF rest])
qed

text \<open>
  A sweep that observes no residual port leaves the memory as it was, and so do any
  number of such sweeps in a row.
\<close>

lemma markAndClean_empty [simp]:
  "markAndCleanInternalPort env [] mem = ((Done, []), mem)"
  by (simp add: markAndCleanInternalPort_def)

lemma reaperSweeps_empty_sweeps:
  "reaperSweeps env (replicate k [] @ later) mem =
     replicate k (Done, []) @ reaperSweeps env later mem"
  by (induction k) simp_all

lemma markAndClean_marks:
  "markAndCleanInternalPort env [p] {} = ((Done, []), {p})"
  by (simp add: markAndCleanInternalPort_def)

lemma markAndClean_deletes:
  "fst (markAndCleanInternalPort env [p] {p}) =
     (case outcome env (delPort env p) of
        None \<Rightarrow> Done
      | Some err \<Rightarrow> Failed (Errorf ''failed to delete ovs port'' err),
      [(delPort env p, outcome env (delPort env p))])"
  by (simp add: markAndCleanInternalPort_def split: option.split)

text \<open>
  C3. A sweep that observes no residual port returns before
  \<^verbatim>\<open>lastNoPodOvsPort\<close> is replaced, so the marks of the sweep before it stay.
  A port observed on one sweep, not observed while any number of sweeps observe
  nothing at all, and observed again is passed to del-port on that last sweep: the
  only call of the sweep. It is deleted although it was not observed on the sweep
  before; with one empty sweep in between, the port \<open>p\<close> is deleted on the third
  sweep.
\<close>

theorem reaper_deletes_after_empty_sweeps:
  "snd (markAndCleanInternalPort env [] lastNoPodOvsPort) = lastNoPodOvsPort \<and>
   snd (reaperSweeps env ([p] # replicate k [] @ [[p]]) {} ! Suc k) =
     [(delPort env p, outcome env (delPort env p))] \<and>
   deletedPorts (reaperSweeps env_ok [[''p''], [], [''p'']] {} ! 2) = [''p'']"
proof (intro conjI)
  show "snd (markAndCleanInternalPort env [] lastNoPodOvsPort) = lastNoPodOvsPort"
    by simp
  have "reaperSweeps env ([p] # replicate k [] @ [[p]]) {} ! Suc k =
          fst (markAndCleanInternalPort env [p] {p})"
    by (simp add: markAndClean_marks reaperSweeps_empty_sweeps nth_append split: prod.split)
  then show "snd (reaperSweeps env ([p] # replicate k [] @ [[p]]) {} ! Suc k) =
     [(delPort env p, outcome env (delPort env p))]"
    by (simp add: markAndClean_deletes)
  show "deletedPorts (reaperSweeps env_ok [[''p''], [], [''p'']] {} ! 2) = [''p'']"
    by (simp add: env_ok_def markAndCleanInternalPort_def deletedPorts_def delPort_def)
qed


subsection \<open>Address reconciliation\<close>

text \<open>
  The key under which configureNic files a configured address is its IP, a slash and
  the mask in hexadecimal, not the prefix length.
\<close>

lemma key_of_10_0_0_5:
  "IP_String (IP (ip4_24 10 0 0 5)) @ ''/'' @ Mask_String (Mask (ip4_24 10 0 0 5)) =
     ''10.0.0.5/ffffff00''"
  by (simp add: ip4_24_def IP_String_def Mask_String_def To4_def hexString_def hexDigit_def
      itoa.simps)

lemma length_hexString: "length (hexString bs) = 2 * length bs"
  by (induction bs) (simp_all add: hexString_def)

lemma length_itoa_le_3: "n < 1000 \<Longrightarrow> length (itoa n) \<le> 3"
  by (subst itoa.simps, subst itoa.simps, subst itoa.simps) auto

text \<open>
  The key of a configured address with an IPv4 or IPv6 mask is never the CIDR text of
  that address: the mask has 8 or 32 hexadecimal digits, a prefix length at most 3
  decimal digits.
\<close>

lemma key_is_not_cidr_text:
  assumes "length (Mask a) = 4 \<or> length (Mask a) = 16" and "n \<le> 128"
  shows "IP_String (IP a) @ ''/'' @ Mask_String (Mask a) \<noteq> IP_String (IP a) @ ''/'' @ itoa n"
proof
  assume "IP_String (IP a) @ ''/'' @ Mask_String (Mask a) = IP_String (IP a) @ ''/'' @ itoa n"
  then have "Mask_String (Mask a) = itoa n" by simp
  then have "length (Mask_String (Mask a)) = length (itoa n)" by simp
  moreover have "length (itoa n) \<le> 3" using assms(2) by (intro length_itoa_le_3) simp
  moreover have "8 \<le> length (Mask_String (Mask a))"
    using assms(1) by (auto simp: Mask_String_def length_hexString)
  ultimately show False by simp
qed

text \<open>
  C1. With the addresses 10.0.0.4/24 (A) and 10.0.0.5/24 (B) on the link and the request
  \<open>10.0.0.5/24,10.0.0.6/24\<close> (B and C), configureNic deletes A and B and then adds B
  and C: the unchanged address B is deleted and added again, because its key
  \<open>10.0.0.5/ffffff00\<close> is not the requested string \<open>10.0.0.5/24\<close>. The link-local
  address is left alone.
\<close>

theorem configureNic_readds_unchanged_address:
  "configureNic env_reconcile ''eth0'' ''10.0.0.5/24,10.0.0.6/24'' [0, 0, 0, 170, 187, 204] 0 =
     (Done,
      [(AddrDel eth0_link (ip4_24 10 0 0 4), None),
       (AddrDel eth0_link (ip4_24 10 0 0 5), None),
       (AddrAdd eth0_link (ip4_24 10 0 0 5), None),
       (AddrAdd eth0_link (ip4_24 10 0 0 6), None),
       (LinkSetHardwareAddr eth0_link [0, 0, 0, 170, 187, 204], None)])"
  by (simp add: configureNic_def env_reconcile_def env_ok_def applyAddrs_def invoke_def
      eth0_link_def ip4_24_def IsLinkLocalUnicast_def To4_def
      IP_String_def Mask_String_def hexString_def hexDigit_def itoa.simps)


subsection \<open>An uplink that is absent\<close>

text \<open>
  C6 (as amended). When the lookup of the uplink fails because the link does not exist,
  the detach operation removeProviderNic returns success without calling anything, and
  the attach operation configProviderNic returns the MTU 0 and an error, as it does
  for every error of that lookup.
\<close>

theorem absent_uplink:
  "(LinkByName env nicName = Inl LinkNotFoundError \<longrightarrow>
      removeProviderNic env nicName brName = (Done, [])) \<and>
   (LinkByName env nicName = Inl err \<longrightarrow>
      configProviderNic env nicName brName =
        (0, Failed (Errorf ''failed to get nic by name'' err), []))"
  by (simp add: removeProviderNic_def configProviderNic_def)

theorem absent_uplink_witness:
  "removeProviderNic env_ok ''eth1'' ''br-ex'' = (Done, []) \<and>
   configProviderNic env_ok ''eth1'' ''br-ex'' =
     (0, Failed (Errorf ''failed to get nic by name'' LinkNotFoundError), [])"
  using absent_uplink [of env_ok "''eth1''" "''br-ex''" LinkNotFoundError]
  by (simp add: env_ok_def)

text \<open>
  The claim as stated fails for the attach direction: with no link \<open>eth1\<close>,
  configProviderNic returns an error.
\<close>

theorem configProviderNic_absent_uplink_fails:
  "LinkByName env_ok ''eth1'' = Inl LinkNotFoundError \<and>
   fst (snd (configProviderNic env_ok ''eth1'' ''br-ex'')) =
     Failed (Errorf ''failed to get nic by name'' LinkNotFoundError)"
  by (simp add: configProviderNic_def env_ok_def)

subsection \<open>A veth pair that cannot be created\<close>

text \<open>
  C8. When the names are derived and creating the veth pair fails, setupVethPair calls
  LinkDel on the same pair next and nothing else, and returns empty names with an
  error: the error of LinkDel when the removal fails too, the error of the creation
  otherwise.
\<close>

theorem setupVethPair_creation_fails:
  assumes "generateNicName containerID ifName = Some (hostNicName, containerNicName)"
    and "veth = Veth hostNicName containerNicName (if 0 < mtu then mtu else 0)"
    and "outcome env (LinkAdd veth) = Some err"
  shows "\<exists>e. setupVethPair env containerID ifName mtu =
           (([], []), Failed e, [(LinkAdd veth, Some err), (LinkDel veth, outcome env (LinkDel veth))]) \<and>
           e = (case outcome env (LinkDel veth) of
                  Some err' \<Rightarrow> err'
                | None \<Rightarrow> Errorf ''failed to create veth for'' err)"
  using assms by (auto simp: setupVethPair_def Let_def split: option.splits)

theorem setupVethPair_creation_fails_witness:
  "setupVethPair env_linkadd_fails ''0123456789abcdef'' ''eth0'' 1400 =
     (([], []), Failed (Errorf ''failed to create veth for'' (OtherError ''file exists'')),
      [(LinkAdd (Veth ''0123456789ab_h'' ''0123456789ab_c'' 1400), Some (OtherError ''file exists'')),
       (LinkDel (Veth ''0123456789ab_h'' ''0123456789ab_c'' 1400), None)])"
  using setupVethPair_creation_fails [of "''0123456789abcdef''" "''eth0''"
      "''0123456789ab_h''" "''0123456789ab_c''"
      "Veth ''0123456789ab_h'' ''0123456789ab_c'' 1400" 1400 env_linkadd_fails
      "OtherError ''file exists''"]
  by (simp add: generateNicName_def slice_to_def env_linkadd_fails_def env_ok_def)


subsection \<open>Moving the addresses of the uplink to the bridge\<close>

lemma set_andThen: "set (snd (andThen r k)) \<subseteq> set (snd r) \<union> set (snd k)"
  by (cases r; cases "fst r") (auto simp: andThen_def)

lemma set_seqs: "set (snd (seqs rs)) \<subseteq> (\<Union>r\<in>set rs. set (snd r))"
proof (induction rs)
  case Nil
  show ?case by simp
next
  case (Cons r rs)
  from set_andThen [of r "seqs rs"] Cons show ?case by auto
qed

lemma delThenReplace_append:
  assumes 1: "delThenReplace src dst f A tr1" and 2: "delThenReplace src dst f A tr2"
    and hd2: "\<And>l a r rest. tr2 \<noteq> (AddrReplace l a, r) # rest"
  shows "delThenReplace src dst f A (tr1 @ tr2)"
  unfolding delThenReplace_def
proof (intro allI impI)
  fix pre l a' r post
  assume eq: "tr1 @ tr2 = pre @ (AddrReplace l a', r) # post"
  then consider us where "tr1 = pre @ us" "us @ tr2 = (AddrReplace l a', r) # post"
    | us where "tr1 @ us = pre" "tr2 = us @ (AddrReplace l a', r) # post"
    by (auto simp: append_eq_append_conv2)
  then show "\<exists>pre' a. pre = pre' @ [(AddrDel src a, None)] \<and> l = dst \<and> a' = f a \<and> a \<in> A"
  proof cases
    case 1
    show ?thesis
    proof (cases us)
      case Nil
      with 1 hd2 show ?thesis by auto
    next
      case (Cons u us')
      with 1 have "tr1 = pre @ (AddrReplace l a', r) # us'" by simp
      with assms(1) show ?thesis unfolding delThenReplace_def by blast
    qed
  next
    case 2
    with assms(2) obtain pre' a where "us = pre' @ [(AddrDel src a, None)]" "l = dst" "a' = f a" "a \<in> A"
      unfolding delThenReplace_def by blast
    with 2 show ?thesis by auto
  qed
qed

lemma shaped_andThen:
  assumes r: "shaped src dst f A r" and k: "shaped src dst f A k"
  shows "shaped src dst f A (andThen r k)"
proof (cases "fst r = Done")
  case True
  then have s: "snd (andThen r k) = snd r @ snd k" by (rule snd_andThen_Done)
  have "delThenReplace src dst f A (snd r @ snd k)"
    by (rule delThenReplace_append) (use r k in \<open>auto simp: shaped_def\<close>)
  moreover have "\<forall>l a e rest. snd r @ snd k \<noteq> (AddrReplace l a, e) # rest"
    using r k by (cases "snd r") (auto simp: shaped_def)
  ultimately show ?thesis by (simp add: s shaped_def)
next
  case False
  then show ?thesis using r by (simp add: andThen_not_Done)
qed

lemma shaped_empty: "shaped src dst f A (st, [])"
  by (simp add: shaped_def delThenReplace_def)

lemma shaped_seqs_Nil: "shaped src dst f A (seqs [])"
  by (simp add: shaped_empty)

lemma shaped_seqs_Cons:
  "shaped src dst f A r \<Longrightarrow> shaped src dst f A (seqs rs) \<Longrightarrow> shaped src dst f A (seqs (r # rs))"
  by (simp add: shaped_andThen)

lemma shaped_seqs_map:
  assumes "\<And>x. x \<in> set xs \<Longrightarrow> shaped src dst f A (g x)"
  shows "shaped src dst f A (seqs (map g xs))"
  using assms by (induction xs) (auto intro: shaped_andThen shaped_empty)

lemma shaped_no_replace:
  assumes "\<And>l a e. (AddrReplace l a, e) \<notin> set (snd x)"
  shows "shaped src dst f A x"
proof -
  have "\<And>pre l a e post. snd x \<noteq> pre @ (AddrReplace l a, e) # post"
    using assms by (metis in_set_conv_decomp)
  then show ?thesis unfolding shaped_def delThenReplace_def by (metis append_Nil)
qed

lemma shaped_invoke:
  assumes "\<And>l a. c \<noteq> AddrReplace l a"
  shows "shaped src dst f A (invoke env c w)"
  by (rule shaped_no_replace) (use assms in auto)

lemma shaped_whenever:
  "shaped src dst f A r \<Longrightarrow> shaped src dst f A (whenever b r)"
  by (cases b) (simp_all add: shaped_empty)

lemma shaped_moveAddr:
  assumes "IsLinkLocalUnicast (IP a) \<or> a \<in> A"
  shows "shaped src dst (relabel srcName dstName) A (moveAddr env src srcName dst dstName a)"
proof (cases "IsLinkLocalUnicast (IP a)")
  case True
  then show ?thesis by (simp add: moveAddr_def shaped_empty)
next
  case False
  with assms have a: "a \<in> A" by simp
  show ?thesis
  proof (cases "outcome env (AddrDel src a)")
    case None
    with False have tr: "snd (moveAddr env src srcName dst dstName a) =
        [(AddrDel src a, None),
         (AddrReplace dst (relabel srcName dstName a),
          outcome env (AddrReplace dst (relabel srcName dstName a)))]"
      by (simp add: moveAddr_def)
    have "\<exists>pre' b. pre = pre' @ [(AddrDel src b, None)] \<and> l = dst \<and>
            a' = relabel srcName dstName b \<and> b \<in> A"
      if "[(AddrDel src a, None),
           (AddrReplace dst (relabel srcName dstName a),
            outcome env (AddrReplace dst (relabel srcName dstName a)))] =
          pre @ (AddrReplace l a', r) # post" for pre l a' r post
    proof -
      from that have "pre = [(AddrDel src a, None)] \<and> l = dst \<and> a' = relabel srcName dstName a"
        by (cases pre; cases "tl pre") (auto simp: Cons_eq_append_conv)
      with a show ?thesis by auto
    qed
    then show ?thesis unfolding shaped_def tr delThenReplace_def by auto
  next
    case (Some e)
    with False have "snd (moveAddr env src srcName dst dstName a) = [(AddrDel src a, Some e)]"
      by (simp add: moveAddr_def)
    then show ?thesis by (simp add: shaped_no_replace)
  qed
qed

lemma shaped_moveAddrs:
  "shaped src dst (relabel srcName dstName) {a \<in> set addrs. \<not> IsLinkLocalUnicast (IP a)}
     (seqs (map (moveAddr env src srcName dst dstName) addrs))"
  by (rule shaped_seqs_map) (auto intro: shaped_moveAddr)

lemma shaped_replayRoutes: "shaped src dst f A (replayRoutes env target scopes routes)"
  unfolding replayRoutes_def replayRoute_def
  by (intro shaped_seqs_map shaped_whenever shaped_invoke)
    (auto intro!: shaped_whenever shaped_invoke shaped_empty)

lemma shaped_configProviderNic:
  assumes nic: "LinkByName env nicName = Inr nic" and br: "LinkByName env brName = Inr bridge"
    and al: "AddrList env nic = Inr addrs"
  shows "shaped nic bridge (relabel nicName brName)
           {a \<in> set addrs. \<not> IsLinkLocalUnicast (IP a)}
           (snd (configProviderNic env nicName brName))"
  unfolding configProviderNic_def nic br al sum.case Let_def snd_conv
  by (intro shaped_seqs_Cons shaped_seqs_Nil shaped_moveAddrs shaped_replayRoutes)
    (auto intro!: shaped_andThen shaped_moveAddrs shaped_replayRoutes
       shaped_whenever shaped_invoke shaped_empty split: sum.split)


lemma seqs_Done_member:
  assumes "fst (seqs rs) = Done" and "r \<in> set rs"
  shows "fst r = Done \<and> set (snd r) \<subseteq> set (snd (seqs rs))"
  using assms by (auto simp: seqs_Done_iff seqs_Done_trace)

lemma moveAddr_Done_events:
  assumes "fst (moveAddr env src srcName dst dstName a) = Done"
    and "\<not> IsLinkLocalUnicast (IP a)"
  shows "(AddrDel src a, Some EADDRNOTAVAIL) \<in> set (snd (moveAddr env src srcName dst dstName a)) \<or>
         (AddrDel src a, None) \<in> set (snd (moveAddr env src srcName dst dstName a)) \<and>
         (AddrReplace dst (relabel srcName dstName a), None)
           \<in> set (snd (moveAddr env src srcName dst dstName a))"
  using assms
  by (auto simp: moveAddr_def invoke_def split: option.splits if_splits)

lemma configProviderNic_Done_moves:
  assumes nic: "LinkByName env nicName = Inr nic" and br: "LinkByName env brName = Inr bridge"
    and al: "AddrList env nic = Inr addrs"
    and dn: "fst (snd (configProviderNic env nicName brName)) = Done"
    and a: "a \<in> set addrs"
  shows "fst (moveAddr env nic nicName bridge brName a) = Done \<and>
         set (snd (moveAddr env nic nicName bridge brName a))
           \<subseteq> set (snd (snd (configProviderNic env nicName brName)))"
proof -
  obtain routes where rl: "RouteList env nic = Inr routes"
    using dn by (cases "RouteList env nic")
      (auto simp: configProviderNic_def nic br al Let_def fst_andThen_Done)
  let ?moves = "seqs (map (moveAddr env nic nicName bridge brName) addrs)"
  have md: "fst ?moves = Done"
    using dn by (auto simp: configProviderNic_def nic br al rl Let_def fst_andThen_Done)
  have sub: "set (snd ?moves) \<subseteq> set (snd (snd (configProviderNic env nicName brName)))"
    using dn
    by (auto simp: configProviderNic_def nic br al rl Let_def fst_andThen_Done snd_andThen_Done)
  from seqs_Done_member [OF md, of "moveAddr env nic nicName bridge brName a"] a sub
  show ?thesis by auto
qed


text \<open>
  C2 (as amended). In configProviderNic every address is deleted from the uplink first
  and put on the bridge afterwards: every AddrReplace of the trace is on the bridge,
  carries a non-link-local address of the uplink with its label rewritten, and comes
  right after the AddrDel of that address on the uplink that succeeded. When the call
  returns no error, every non-link-local address of the uplink was either reported
  absent by its AddrDel (EADDRNOTAVAIL, skipped) or deleted from the uplink and then
  replaced on the bridge.
\<close>

theorem configProviderNic_delete_then_replace:
  assumes "LinkByName env nicName = Inr nic" and "LinkByName env brName = Inr bridge"
    and "AddrList env nic = Inr addrs"
    and "configProviderNic env nicName brName = (mtu, st, tr)"
  shows "(\<forall>pre l a' r post. tr = pre @ (AddrReplace l a', r) # post \<longrightarrow>
            (\<exists>pre' a. pre = pre' @ [(AddrDel nic a, None)] \<and> l = bridge \<and>
               a' = relabel nicName brName a \<and> a \<in> set addrs \<and>
               \<not> IsLinkLocalUnicast (IP a))) \<and>
         (st = Done \<longrightarrow>
            (\<forall>a\<in>set addrs. \<not> IsLinkLocalUnicast (IP a) \<longrightarrow>
               (AddrDel nic a, Some EADDRNOTAVAIL) \<in> set tr \<or>
               (AddrDel nic a, None) \<in> set tr \<and>
               (AddrReplace bridge (relabel nicName brName a), None) \<in> set tr))"
proof (intro conjI impI ballI)
  from shaped_configProviderNic [OF assms(1,2,3)] assms(4)
  have "delThenReplace nic bridge (relabel nicName brName)
          {a \<in> set addrs. \<not> IsLinkLocalUnicast (IP a)} tr"
    by (simp add: shaped_def)
  then show "\<forall>pre l a' r post. tr = pre @ (AddrReplace l a', r) # post \<longrightarrow>
            (\<exists>pre' a. pre = pre' @ [(AddrDel nic a, None)] \<and> l = bridge \<and>
               a' = relabel nicName brName a \<and> a \<in> set addrs \<and>
               \<not> IsLinkLocalUnicast (IP a))"
    unfolding delThenReplace_def by blast
next
  fix a
  assume st: "st = Done" and a: "a \<in> set addrs" and ll: "\<not> IsLinkLocalUnicast (IP a)"
  from st assms(4) have dn: "fst (snd (configProviderNic env nicName brName)) = Done" by simp
  from configProviderNic_Done_moves [OF assms(1,2,3) dn a] assms(4)
  have m: "fst (moveAddr env nic nicName bridge brName a) = Done"
    and sub: "set (snd (moveAddr env nic nicName bridge brName a)) \<subseteq> set tr"
    by simp_all
  from moveAddr_Done_events [OF m ll] sub
  show "(AddrDel nic a, Some EADDRNOTAVAIL) \<in> set tr \<or>
        (AddrDel nic a, None) \<in> set tr \<and>
        (AddrReplace bridge (relabel nicName brName a), None) \<in> set tr"
    by blast
qed

lemma configProviderNic_env_uplink:
  "configProviderNic env_uplink ''eth1'' ''br-ex'' =
     (1500, Done,
      [(AddrDel eth1_link (ip4_24 192 168 1 10), None),
       (AddrReplace br_link (ip4_24 192 168 1 10), None),
       (ovs_Exec [''set'', ''bridge'', ''br-ex'', ''other-config:hwaddr=\"00:00:00:01:02:03\"''], None),
       (LinkSetMTU br_link 1500, None),
       (LinkSetUp br_link, None),
       (ovs_Exec [''--may-exist'', ''add-port'', ''br-ex'', ''eth1'', ''--'', ''set'', ''port'',
          ''eth1'', ''external_ids:vendor=kube-ovn''], None),
       (LinkSetUp eth1_link, None)])"
  by (simp add: configProviderNic_def env_uplink_def env_ok_def moveAddr_def relabel_def
      invoke_def replayRoutes_def linkIsAlbBond_def isAlbBond_def
      eth1_link_def br_link_def ip4_24_def IsLinkLocalUnicast_def To4_def
      HardwareAddr_String_def hexDigit_def)

theorem configProviderNic_delete_then_replace_witness:
  "LinkByName env_uplink ''eth1'' = Inr eth1_link \<and>
   LinkByName env_uplink ''br-ex'' = Inr br_link \<and>
   AddrList env_uplink eth1_link = Inr [ip4_24 192 168 1 10] \<and>
   fst (snd (configProviderNic env_uplink ''eth1'' ''br-ex'')) = Done \<and>
   \<not> IsLinkLocalUnicast (IP (ip4_24 192 168 1 10)) \<and>
   (AddrDel eth1_link (ip4_24 192 168 1 10), None)
     \<in> set (snd (snd (configProviderNic env_uplink ''eth1'' ''br-ex''))) \<and>
   (AddrReplace br_link (relabel ''eth1'' ''br-ex'' (ip4_24 192 168 1 10)), None)
     \<in> set (snd (snd (configProviderNic env_uplink ''eth1'' ''br-ex'')))"
proof -
  have h1: "LinkByName env_uplink ''eth1'' = Inr eth1_link"
    and h2: "LinkByName env_uplink ''br-ex'' = Inr br_link"
    and h3: "AddrList env_uplink eth1_link = Inr [ip4_24 192 168 1 10]"
    by (simp_all add: env_uplink_def env_ok_def)
  have h4: "configProviderNic env_uplink ''eth1'' ''br-ex'' =
      (fst (configProviderNic env_uplink ''eth1'' ''br-ex''),
       fst (snd (configProviderNic env_uplink ''eth1'' ''br-ex'')),
       snd (snd (configProviderNic env_uplink ''eth1'' ''br-ex'')))"
    by simp
  have dn: "fst (snd (configProviderNic env_uplink ''eth1'' ''br-ex'')) = Done"
    and ll: "\<not> IsLinkLocalUnicast (IP (ip4_24 192 168 1 10))"
    and ne: "(AddrDel eth1_link (ip4_24 192 168 1 10), Some EADDRNOTAVAIL)
      \<notin> set (snd (snd (configProviderNic env_uplink ''eth1'' ''br-ex'')))"
    by (simp_all add: configProviderNic_env_uplink ip4_24_def IsLinkLocalUnicast_def To4_def)
  from configProviderNic_delete_then_replace [OF h1 h2 h3 h4] dn ll ne
  have "(AddrDel eth1_link (ip4_24 192 168 1 10), None)
          \<in> set (snd (snd (configProviderNic env_uplink ''eth1'' ''br-ex''))) \<and>
        (AddrReplace br_link (relabel ''eth1'' ''br-ex'' (ip4_24 192 168 1 10)), None)
          \<in> set (snd (snd (configProviderNic env_uplink ''eth1'' ''br-ex'')))"
    by auto
  with h1 h2 h3 dn ll show ?thesis by simp
qed

text \<open>
  The claim as stated fails: the address is deleted from the uplink before it is put on
  the bridge, and when the kernel then refuses the AddrReplace the call returns an
  error with the address deleted from the uplink and not installed on the bridge.
\<close>

theorem configProviderNic_deletes_before_replace:
  "take 2 (snd (snd (configProviderNic env_uplink ''eth1'' ''br-ex''))) =
     [(AddrDel eth1_link (ip4_24 192 168 1 10), None),
      (AddrReplace br_link (ip4_24 192 168 1 10), None)] \<and>
   configProviderNic env_replace_fails ''eth1'' ''br-ex'' =
     (0, Failed (Errorf ''failed to replace address'' (OtherError ''operation not permitted'')),
      [(AddrDel eth1_link (ip4_24 192 168 1 10), None),
       (AddrReplace br_link (ip4_24 192 168 1 10), Some (OtherError ''operation not permitted''))])"
  by (simp add: configProviderNic_def env_replace_fails_def env_uplink_def env_ok_def
      moveAddr_def relabel_def
      invoke_def replayRoutes_def linkIsAlbBond_def isAlbBond_def
      eth1_link_def br_link_def ip4_24_def IsLinkLocalUnicast_def To4_def
      HardwareAddr_String_def hexDigit_def)

subsection \<open>Reachability Prober\<close>

lemma gatewayProbe_cases:
  "gatewayProbe env nic ips u v i gw =
     (if length ips \<le> i then (Panic, [])
      else (let c = (if u \<and> CheckProtocol env gw = ProtocolIPv4
                     then Arping nic (hd (strings_Split CHR ''/'' (ips ! i))) gw (gatewayCheckMaxRetry env)
                     else pingGateway gw (hd (strings_Split CHR ''/'' (ips ! i))) v)
            in (case outcome env c of
                  None \<Rightarrow> (Done, [(c, None)])
                | Some e \<Rightarrow>
                    (Failed (if u \<and> CheckProtocol env gw = ProtocolIPv4
                             then Errorf ''network with gateway is not ready for interface'' e
                             else e),
                     [(c, Some e)]))))"
  by (auto simp: gatewayProbe_def invoke_def Let_def split: option.splits)

lemma probes_trace:
  fixes env nic ips u v
  defines "c \<equiv> \<lambda>i gw. (if u \<and> CheckProtocol env gw = ProtocolIPv4
                     then Arping nic (hd (strings_Split CHR ''/'' (ips ! i))) gw (gatewayCheckMaxRetry env)
                     else pingGateway gw (hd (strings_Split CHR ''/'' (ips ! i))) v)"
  assumes "seqs (map (\<lambda>(i, gw). gatewayProbe env nic ips u v i gw) (enumerate n gs)) = (st, tr)"
  shows "length tr \<le> length gs \<and>
         (\<forall>i<length tr. n + i < length ips \<and> tr ! i = (c (n + i) (gs ! i), outcome env (c (n + i) (gs ! i))) \<and>
             (Suc i < length tr \<longrightarrow> snd (tr ! i) = None)) \<and>
         (st = Done \<longleftrightarrow> length tr = length gs \<and> (\<forall>i<length tr. snd (tr ! i) = None)) \<and>
         ((\<exists>err. st = Failed err) \<longleftrightarrow> tr \<noteq> [] \<and> snd (last tr) \<noteq> None) \<and>
         (st = Panic \<longleftrightarrow> length tr < length gs \<and> length ips \<le> n + length tr \<and> (\<forall>i<length tr. snd (tr ! i) = None))"
  using assms(2)
proof (induction gs arbitrary: n st tr)
  case Nil
  then show ?case by auto
next
  case (Cons g gs)
  show ?case
  proof (cases "length ips \<le> n")
    case True
    with Cons.prems have "st = Panic" "tr = []"
      by (simp_all add: gatewayProbe_cases)
    with True show ?thesis by simp
  next
    case False
    show ?thesis
    proof (cases "outcome env (c n g)")
      case (Some e)
      with False Cons.prems have "\<exists>err. st = Failed err" "tr = [(c n g, Some e)]"
        by (auto simp: gatewayProbe_cases c_def Let_def)
      with False Some show ?thesis by auto
    next
      case None
      obtain st' tr' where rest:
        "seqs (map (\<lambda>(i, gw). gatewayProbe env nic ips u v i gw) (enumerate (Suc n) gs)) = (st', tr')"
        by (cases "seqs (map (\<lambda>(i, gw). gatewayProbe env nic ips u v i gw) (enumerate (Suc n) gs))")
      with False None Cons.prems have st: "st = st'" and tr: "tr = (c n g, None) # tr'"
        by (auto simp: gatewayProbe_cases c_def Let_def)
      note IH = Cons.IH [OF rest]
      note IH1 = IH [THEN conjunct1]
      note IH2 = IH [THEN conjunct2, THEN conjunct1, rule_format]
      note IH3 = IH [THEN conjunct2, THEN conjunct2, THEN conjunct1]
      note IH4 = IH [THEN conjunct2, THEN conjunct2, THEN conjunct2, THEN conjunct1]
      note IH5 = IH [THEN conjunct2, THEN conjunct2, THEN conjunct2, THEN conjunct2]
      have len: "length tr \<le> length (g # gs)" using IH1 tr by simp
      have idx: "\<forall>i<length tr. n + i < length ips \<and>
          tr ! i = (c (n + i) ((g # gs) ! i), outcome env (c (n + i) ((g # gs) ! i))) \<and>
          (Suc i < length tr \<longrightarrow> snd (tr ! i) = None)"
      proof (intro allI impI)
        fix i assume i: "i < length tr"
        show "n + i < length ips \<and>
          tr ! i = (c (n + i) ((g # gs) ! i), outcome env (c (n + i) ((g # gs) ! i))) \<and>
          (Suc i < length tr \<longrightarrow> snd (tr ! i) = None)"
        proof (cases i)
          case 0
          with False None tr show ?thesis by simp
        next
          case (Suc j)
          with i tr have j: "j < length tr'" by simp
          from IH2 [OF j] have "Suc n + j < length ips"
            "tr' ! j = (c (Suc n + j) (gs ! j), outcome env (c (Suc n + j) (gs ! j)))"
            "Suc j < length tr' \<longrightarrow> snd (tr' ! j) = None" by auto
          then show ?thesis unfolding Suc tr by simp
        qed
      qed
      have all: "(\<forall>i<length tr. snd (tr ! i) = None) \<longleftrightarrow> (\<forall>i<length tr'. snd (tr' ! i) = None)"
        unfolding tr by (auto simp: nth_Cons split: nat.splits)
      have dn: "st = Done \<longleftrightarrow> length tr = length (g # gs) \<and> (\<forall>i<length tr. snd (tr ! i) = None)"
        unfolding all using IH3 st tr by simp
      have fl: "(\<exists>err. st = Failed err) \<longleftrightarrow> tr \<noteq> [] \<and> snd (last tr) \<noteq> None"
        using IH4 st tr by auto
      have pn: "st = Panic \<longleftrightarrow> length tr < length (g # gs) \<and> length ips \<le> n + length tr \<and>
          (\<forall>i<length tr. snd (tr ! i) = None)"
        unfolding all using IH5 st tr by simp
      from len idx dn fl pn show ?thesis by (intro conjI)
    qed
  qed
qed




text \<open>
  C10 (as amended). waitNetworkReady panics exactly when there are more gateways than
  addresses and the probe of every gateway that has an address succeeds; a longer
  gateway list whose earlier probe fails returns that error instead.
\<close>

theorem waitNetworkReady_panics_iff:
  assumes "gws = strings_Split CHR '','' gateway" and "ips = strings_Split CHR '','' ipAddr"
  shows "fst (waitNetworkReady env nic ipAddr gateway underlayGateway verbose) = Panic \<longleftrightarrow>
           length ips < length gws \<and>
           (\<forall>i<length ips.
              outcome env
                (if underlayGateway \<and> CheckProtocol env (gws ! i) = ProtocolIPv4
                 then Arping nic (hd (strings_Split CHR ''/'' (ips ! i))) (gws ! i)
                        (gatewayCheckMaxRetry env)
                 else pingGateway (gws ! i) (hd (strings_Split CHR ''/'' (ips ! i))) verbose) = None)"
proof -
  define c where "c = (\<lambda>i. if underlayGateway \<and> CheckProtocol env (gws ! i) = ProtocolIPv4
                 then Arping nic (hd (strings_Split CHR ''/'' (ips ! i))) (gws ! i)
                        (gatewayCheckMaxRetry env)
                 else pingGateway (gws ! i) (hd (strings_Split CHR ''/'' (ips ! i))) verbose)"
  obtain st tr where r:
    "waitNetworkReady env nic ipAddr gateway underlayGateway verbose = (st, tr)"
    by (cases "waitNetworkReady env nic ipAddr gateway underlayGateway verbose")
  with assms have run:
    "seqs (map (\<lambda>(i, gw). gatewayProbe env nic ips underlayGateway verbose i gw) (enumerate 0 gws)) =
       (st, tr)"
    by (simp add: waitNetworkReady_def Let_def)
  note T = probes_trace [OF run]
  note T1 = T [THEN conjunct1]
  have T2: "i < length ips" "tr ! i = (c i, outcome env (c i))" if "i < length tr" for i
    using T [THEN conjunct2, THEN conjunct1, rule_format, OF that] by (simp_all add: c_def)
  note T3 = T [THEN conjunct2, THEN conjunct2, THEN conjunct1]
  note T4 = T [THEN conjunct2, THEN conjunct2, THEN conjunct2, THEN conjunct1]
  have T5: "st = Panic \<longleftrightarrow> length tr < length gws \<and> length ips \<le> length tr \<and>
      (\<forall>i<length tr. snd (tr ! i) = None)"
    using T [THEN conjunct2, THEN conjunct2, THEN conjunct2, THEN conjunct2] by simp
  have le: "length tr \<le> length ips"
    using T2(1) by (metis not_le_imp_less order.strict_iff_not)
  have "st = Panic \<longleftrightarrow> length ips < length gws \<and> (\<forall>i<length ips. outcome env (c i) = None)"
  proof
    assume "st = Panic"
    with T5 le have l: "length tr = length ips" "length tr < length gws"
      and n: "\<forall>i<length tr. snd (tr ! i) = None" by auto
    from n T2(2) l show "length ips < length gws \<and> (\<forall>i<length ips. outcome env (c i) = None)"
      by (metis snd_conv)
  next
    assume a: "length ips < length gws \<and> (\<forall>i<length ips. outcome env (c i) = None)"
    have ok: "snd (tr ! i) = None" if "i < length tr" for i
      using a T2 [OF that] by simp
    show "st = Panic"
    proof (cases st)
      case Done
      with T3 have "length tr = length gws" by simp
      with le a show ?thesis by simp
    next
      case (Failed e)
      with T4 have "tr \<noteq> []" "snd (last tr) \<noteq> None" by auto
      moreover from this(1) have "last tr = tr ! (length tr - 1)" by (rule last_conv_nth)
      ultimately show ?thesis using ok [of "length tr - 1"] by simp
    next
      case Panic
      then show ?thesis .
    qed
  qed
  with r show ?thesis by (simp add: c_def)
qed

theorem waitNetworkReady_panics_iff_witness:
  "waitNetworkReady env_dual ''eth0'' ''10.0.0.5/24'' ''10.0.0.1,fd00::1'' False True =
     (Panic, [(pingGateway ''10.0.0.1'' ''10.0.0.5'' True, None)]) \<and>
   fst (waitNetworkReady env_dual ''eth0'' ''10.0.0.5/24,fd00::5/64'' ''10.0.0.1,fd00::1'' False True)
     \<noteq> Panic"
  using waitNetworkReady_panics_iff [of "[''10.0.0.1'', ''fd00::1'']" "''10.0.0.1,fd00::1''"
      "[''10.0.0.5/24'']" "''10.0.0.5/24''" env_dual "''eth0''" False True]
    waitNetworkReady_panics_iff [of "[''10.0.0.1'', ''fd00::1'']" "''10.0.0.1,fd00::1''"
      "[''10.0.0.5/24'', ''fd00::5/64'']" "''10.0.0.5/24,fd00::5/64''" env_dual "''eth0''" False True]
  by (simp add: waitNetworkReady_def gatewayProbe_def invoke_def env_dual_def env_ok_def)

text \<open>
  The claim as stated fails: with one address and two gateways the gateway list is the
  longer one, but when the first gateway does not answer, waitNetworkReady returns that
  error and never reaches the index out of range.
\<close>

theorem waitNetworkReady_longer_gateways_error:
  "length (strings_Split CHR '','' ''10.0.0.5/24'') < length (strings_Split CHR '','' ''10.0.0.1,fd00::1'') \<and>
   waitNetworkReady env_ping_fails ''eth0'' ''10.0.0.5/24'' ''10.0.0.1,fd00::1'' False True =
     (Failed (OtherError ''no response from gateway''),
      [(pingGateway ''10.0.0.1'' ''10.0.0.5'' True, Some (OtherError ''no response from gateway''))])"
  by (simp add: waitNetworkReady_def gatewayProbe_def invoke_def env_ping_fails_def env_dual_def
      env_ok_def)

subsection \<open>Default routes\<close>

lemma no_default_filter:
  "filter replacesDefaultRoute tr = [] \<longleftrightarrow> (\<forall>ev\<in>set tr. \<not> replacesDefaultRoute ev)"
  by (simp add: filter_empty_conv)

lemma no_default_andThen:
  assumes "filter replacesDefaultRoute (snd r) = []" and "filter replacesDefaultRoute (snd k) = []"
  shows "filter replacesDefaultRoute (snd (andThen r k)) = []"
  using assms set_andThen [of r k] unfolding no_default_filter by blast

lemma no_default_seqs:
  assumes "\<And>r. r \<in> set rs \<Longrightarrow> filter replacesDefaultRoute (snd r) = []"
  shows "filter replacesDefaultRoute (snd (seqs rs)) = []"
  using assms set_seqs [of rs] unfolding no_default_filter by blast

lemma no_default_whenever:
  "filter replacesDefaultRoute (snd r) = [] \<Longrightarrow> filter replacesDefaultRoute (snd (whenever b r)) = []"
  by (cases b) simp_all

lemma no_default_applyAddrs:
  "filter replacesDefaultRoute (snd (applyAddrs env l m1 m2 dels adds)) = []"
  unfolding applyAddrs_def
  by (rule no_default_seqs) (auto simp: replacesDefaultRoute_def)

lemma no_default_configureNic:
  "filter replacesDefaultRoute (snd (configureNic env link ip macAddr mtu)) = []"
  unfolding configureNic_def
  by (auto split: sum.split simp: replacesDefaultRoute_def whenever_def
      intro!: no_default_andThen no_default_applyAddrs)

lemma no_default_configureAdditionalNic:
  "filter replacesDefaultRoute (snd (configureAdditionalNic env link ip)) = []"
  unfolding configureAdditionalNic_def
  by (auto split: sum.split intro!: no_default_applyAddrs)

lemma no_default_addAdditionalNic:
  "filter replacesDefaultRoute (snd (addAdditionalNic env ifName)) = []"
  by (auto simp: addAdditionalNic_def Let_def replacesDefaultRoute_def split: option.split)

lemma no_default_staticRoute:
  assumes "ParseCIDR env (Destination r) \<noteq> Inr defaultNet4"
    and "ParseCIDR env (Destination r) \<noteq> Inr defaultNet6"
  shows "filter replacesDefaultRoute (snd (staticRoute env l r)) = []"
  using assms
  by (auto simp: staticRoute_def Let_def replacesDefaultRoute_def split: sum.split)

lemma no_default_gatewayProbe:
  "filter replacesDefaultRoute (snd (gatewayProbe env nic ips u v i gw)) = []"
  by (auto simp: gatewayProbe_def Let_def replacesDefaultRoute_def)

lemma no_default_waitNetworkReady:
  "filter replacesDefaultRoute (snd (waitNetworkReady env nic ipAddr gateway u v)) = []"
  unfolding waitNetworkReady_def Let_def
  by (rule no_default_seqs) (auto simp: no_default_gatewayProbe)

text \<open>What the switch on the protocol did when it returned no error.\<close>

lemma configureDefaultRoute_Done:
  assumes "fst (configureDefaultRoute env l ipAddr gateway) = Done"
  shows "(CheckProtocol env ipAddr = ProtocolDual \<longrightarrow>
            (\<exists>gw4 gw6 more. strings_Split CHR '','' gateway = gw4 # gw6 # more \<and>
               snd (configureDefaultRoute env l ipAddr gateway) =
                 [(RouteReplace (defaultRoute l defaultNet4 (ParseIP env gw4)), None),
                  (RouteReplace (defaultRoute l defaultNet6 (ParseIP env gw6)), None)])) \<and>
         (CheckProtocol env ipAddr = ProtocolIPv4 \<longrightarrow>
            snd (configureDefaultRoute env l ipAddr gateway) =
              [(RouteReplace (defaultRoute l defaultNet4 (ParseIP env gateway)), None)]) \<and>
         (CheckProtocol env ipAddr = ProtocolIPv6 \<longrightarrow>
            snd (configureDefaultRoute env l ipAddr gateway) =
              [(RouteReplace (defaultRoute l defaultNet6 (ParseIP env gateway)), None)])"
proof (intro conjI impI)
  assume d: "CheckProtocol env ipAddr = ProtocolDual"
  let ?gws = "strings_Split CHR '','' gateway"
  from assms d have ok4: "outcome env (RouteReplace (defaultRoute l defaultNet4 (ParseIP env (?gws ! 0)))) = None"
    and len: "1 < length ?gws"
    by (auto simp: configureDefaultRoute_def Let_def fst_andThen_Done invoke_fst split: if_splits)
  from assms d len have ok6: "outcome env (RouteReplace (defaultRoute l defaultNet6 (ParseIP env (?gws ! 1)))) = None"
    by (auto simp: configureDefaultRoute_def Let_def fst_andThen_Done invoke_fst split: if_splits)
  from len obtain gw4 gw6 more where g: "?gws = gw4 # gw6 # more"
    by (cases ?gws; cases "tl ?gws") auto
  from d ok4 ok6 len show "\<exists>gw4 gw6 more. ?gws = gw4 # gw6 # more \<and>
               snd (configureDefaultRoute env l ipAddr gateway) =
                 [(RouteReplace (defaultRoute l defaultNet4 (ParseIP env gw4)), None),
                  (RouteReplace (defaultRoute l defaultNet6 (ParseIP env gw6)), None)]"
    unfolding g by (simp add: configureDefaultRoute_def Let_def g invoke_def)
next
  assume "CheckProtocol env ipAddr = ProtocolIPv4"
  with assms show "snd (configureDefaultRoute env l ipAddr gateway) =
              [(RouteReplace (defaultRoute l defaultNet4 (ParseIP env gateway)), None)]"
    by (auto simp: configureDefaultRoute_def invoke_def split: option.splits)
next
  assume "CheckProtocol env ipAddr = ProtocolIPv6"
  with assms show "snd (configureDefaultRoute env l ipAddr gateway) =
              [(RouteReplace (defaultRoute l defaultNet6 (ParseIP env gateway)), None)]"
    by (auto simp: configureDefaultRoute_def invoke_def split: option.splits)
qed

lemma default_route_events [simp]:
  "replacesDefaultRoute (RouteReplace (defaultRoute l defaultNet4 gw), r)"
  "replacesDefaultRoute (RouteReplace (defaultRoute l defaultNet6 gw), r)"
  by (simp_all add: replacesDefaultRoute_def defaultRoute_def)


lemma configureContainerNic_Done_default_routes:
  assumes l: "LinkByName env nicName = Inr containerLink"
    and dn: "fst (configureContainerNic env nicName ifName ipAddr gateway True routes macAddr
                netns mtu nicType gwCheckMode) = Done"
    and nd: "\<forall>r\<in>set routes. ParseCIDR env (Destination r) \<noteq> Inr defaultNet4 \<and>
                ParseCIDR env (Destination r) \<noteq> Inr defaultNet6"
  shows "fst (configureDefaultRoute env containerLink ipAddr gateway) = Done \<and>
         filter replacesDefaultRoute
           (snd (configureContainerNic env nicName ifName ipAddr gateway True routes macAddr
                   netns mtu nicType gwCheckMode)) =
         filter replacesDefaultRoute (snd (configureDefaultRoute env containerLink ipAddr gateway))"
proof -
  have st: "filter replacesDefaultRoute (snd (seqs (map (staticRoute env containerLink) routes))) = []"
    by (rule no_default_seqs) (use nd in \<open>auto intro!: no_default_staticRoute\<close>)
  have sy: "filter replacesDefaultRoute
      (snd (case Sysctl env ''net.ipv6.conf.all.disable_ipv6'' of
              Inl err \<Rightarrow>
                (Failed (Errorf ''failed to get sysctl net.ipv6.conf.all.disable_ipv6'' err), [])
            | Inr v \<Rightarrow>
                whenever (v \<noteq> ''0'')
                  (invoke env (SysctlSet ''net.ipv6.conf.all.disable_ipv6'' ''0'')
                     (Errorf ''failed to enable ipv6 on all nic'')))) = []"
    by (auto split: sum.split simp: whenever_def replacesDefaultRoute_def)
  have nic: "filter replacesDefaultRoute
      (snd (if nicType = InternalType env
            then seqs [addAdditionalNic env ifName,
                       configureAdditionalNic env ifName ipAddr,
                       configureNic env nicName ipAddr macAddr mtu]
            else configureNic env ifName ipAddr macAddr mtu)) = []"
    by (simp add: no_default_andThen no_default_addAdditionalNic
        no_default_configureAdditionalNic no_default_configureNic)
  have wn: "filter replacesDefaultRoute
      (snd (whenever (gwCheckMode \<noteq> gatewayModeDisabled env)
               (waitNetworkReady env (if nicType \<noteq> InternalType env then ifName else nicName)
                  ipAddr gateway (gwCheckMode = gatewayCheckModeArping env) True))) = []"
    by (intro no_default_whenever no_default_waitNetworkReady)
  have a: "filter replacesDefaultRoute (snd (invoke env (LinkSetAlias containerLink nicName) w1)) = []"
    "filter replacesDefaultRoute (snd (invoke env (LinkSetNsFd containerLink netns) w2)) = []"
    "filter replacesDefaultRoute (snd (invoke env (WithNetNSPath netns) w3)) = []"
    "filter replacesDefaultRoute
       (snd (whenever (nicType \<noteq> InternalType env)
               (invoke env (LinkSetName containerLink ifName) w4))) = []" for w1 w2 w3 w4
    by (auto simp: whenever_def replacesDefaultRoute_def)
  from dn show ?thesis
    unfolding configureContainerNic_def l sum.case
    by (simp add: fst_andThen_Done snd_andThen_Done st no_default_whenever [OF sy] nic wn a
        del: invoke_snd)
qed


text \<open>
  When every call with an effect succeeds and what is read can be read, each part of
  configureContainerNic returns no error.
\<close>

lemma collectAdd_ok:
  assumes "\<forall>s\<in>set ss. \<exists>a. ParseAddr env s = Inr a"
  shows "\<exists>d a. collectAdd env msg ss del add = Inr (d, a)"
  using assms by (induction ss arbitrary: del add) auto

lemma applyAddrs_ok:
  assumes "\<forall>c. outcome env c = None"
  shows "fst (applyAddrs env l m1 m2 dels adds) = Done"
  unfolding applyAddrs_def by (auto simp: seqs_Done_iff invoke_fst assms)

lemma configureNic_ok:
  assumes ok: "\<forall>c. outcome env c = None"
    and l: "LinkByName env link = Inr l"
    and a: "AddrList env l = Inr as"
    and p: "\<forall>s\<in>set (strings_Split CHR '','' ip). \<exists>a. ParseAddr env s = Inr a"
  shows "fst (configureNic env link ip mac mtu) = Done"
proof -
  from collectAdd_ok [OF p] obtain d a' where
    c: "collectAdd env ''can not parse address'' (strings_Split CHR '','' ip) (collectDel as []) [] = Inr (d, a')"
    by blast
  show ?thesis
    unfolding configureNic_def l a c sum.case prod.case
    by (simp add: fst_andThen_Done fst_whenever_Done invoke_fst ok applyAddrs_ok [OF ok])
qed

lemma configureAdditionalNic_ok:
  assumes ok: "\<forall>c. outcome env c = None"
    and l: "LinkByName env link = Inr l"
    and a: "AddrList env l = Inr as"
    and p: "\<forall>s\<in>set (strings_Split CHR '','' ip). \<exists>a. ParseAddr env s = Inr a"
  shows "fst (configureAdditionalNic env link ip) = Done"
proof -
  from collectAdd_ok [OF p] obtain d a' where
    c: "collectAdd env ''can not parse'' (strings_Split CHR '','' ip) (collectDel as []) [] = Inr (d, a')"
    by blast
  show ?thesis
    unfolding configureAdditionalNic_def l a c sum.case prod.case
    by (simp add: applyAddrs_ok [OF ok])
qed

lemma addAdditionalNic_ok:
  assumes "\<forall>c. outcome env c = None"
  shows "fst (addAdditionalNic env ifName) = Done"
  using assms by (simp add: addAdditionalNic_def Let_def)

lemma configureDefaultRoute_ok:
  assumes ok: "\<forall>c. outcome env c = None"
    and g: "CheckProtocol env ipAddr = ProtocolDual \<longrightarrow> 1 < length (strings_Split CHR '','' gateway)"
  shows "fst (configureDefaultRoute env l ipAddr gateway) = Done"
  using g
  by (cases "CheckProtocol env ipAddr")
    (simp_all add: configureDefaultRoute_def Let_def fst_andThen_Done invoke_fst ok)

lemma staticRoute_Done: "fst (staticRoute env l r) = Done"
  by (simp add: staticRoute_def Let_def split: sum.split)

lemma probes_ok:
  assumes "\<forall>c. outcome env c = None" and "n + length gs \<le> length ips"
  shows "fst (seqs (map (\<lambda>(i, gw). gatewayProbe env nic ips u v i gw) (enumerate n gs))) = Done"
  using assms(2)
proof (induction gs arbitrary: n)
  case Nil
  then show ?case by simp
next
  case (Cons g gs)
  from Cons.prems have "n < length ips" "Suc n + length gs \<le> length ips" by simp_all
  with Cons.IH [of "Suc n"] show ?case
    by (simp add: fst_andThen_Done gatewayProbe_def Let_def invoke_fst assms(1))
qed

lemma waitNetworkReady_ok:
  assumes "\<forall>c. outcome env c = None"
    and "length (strings_Split CHR '','' gateway) \<le> length (strings_Split CHR '','' ipAddr)"
  shows "fst (waitNetworkReady env nic ipAddr gateway u v) = Done"
  unfolding waitNetworkReady_def Let_def
  by (rule probes_ok [OF assms(1)]) (simp add: assms(2))

lemma configureContainerNic_ok:
  assumes l: "LinkByName env nicName = Inr containerLink"
    and ok: "\<forall>c. outcome env c = None"
    and l2: "LinkByName env ifName = Inr l'"
    and al: "\<forall>l. \<exists>as. AddrList env l = Inr as"
    and p: "\<forall>s\<in>set (strings_Split CHR '','' ipAddr). \<exists>a. ParseAddr env s = Inr a"
    and sy: "Sysctl env ''net.ipv6.conf.all.disable_ipv6'' = Inr v"
    and g: "isDefaultRoute \<and> CheckProtocol env ipAddr = ProtocolDual \<longrightarrow>
              1 < length (strings_Split CHR '','' gateway)"
    and w: "gwCheckMode \<noteq> gatewayModeDisabled env \<longrightarrow>
              length (strings_Split CHR '','' gateway) \<le> length (strings_Split CHR '','' ipAddr)"
  shows "fst (configureContainerNic env nicName ifName ipAddr gateway isDefaultRoute routes macAddr
                netns mtu nicType gwCheckMode) = Done"
proof -
  from al obtain as1 as2 where a1: "AddrList env containerLink = Inr as1"
    and a2: "AddrList env l' = Inr as2" by blast
  note n1 = configureNic_ok [OF ok l a1 p] and n2 = configureNic_ok [OF ok l2 a2 p]
    and n3 = configureAdditionalNic_ok [OF ok l2 a2 p] and n4 = addAdditionalNic_ok [OF ok]
  have d: "isDefaultRoute \<longrightarrow> fst (configureDefaultRoute env containerLink ipAddr gateway) = Done"
    using g configureDefaultRoute_ok [OF ok, of ipAddr gateway containerLink] by blast
  have wn: "gwCheckMode \<noteq> gatewayModeDisabled env \<longrightarrow>
      fst (waitNetworkReady env (if nicType \<noteq> InternalType env then ifName else nicName)
             ipAddr gateway (gwCheckMode = gatewayCheckModeArping env) True) = Done"
    using w waitNetworkReady_ok [OF ok] by blast
  show ?thesis
    unfolding configureContainerNic_def l sum.case sy
    using d wn
    by (simp add: fst_andThen_Done fst_whenever_Done invoke_fst ok seqs_Done_iff staticRoute_Done
        n1 n2 n3 n4)
qed

text \<open>
  C4 (as amended). configureContainerNic is called with the default-route flag, for a
  container link that exists. When it returns no error and no additional static route
  of the request names 0.0.0.0/0 or ::/0, the calls it made that replace a default
  route are, for a dual-stack address, exactly two: 0.0.0.0/0 via the first gateway of
  the comma-separated list, then ::/0 via the second; for an IPv4 or IPv6 address
  exactly one, via the gateway string. Each is a RouteReplace, which replaces a route
  to that destination if there is one. And it does return no error when every call
  with an effect succeeds, the link is found under the interface name, the addresses
  of a link can be listed, every requested address parses, the sysctl can be read, a
  dual-stack request has two gateways, and, where the gateway is probed, there are no
  more gateways than addresses.
\<close>

theorem configureContainerNic_default_routes:
  assumes "LinkByName env nicName = Inr containerLink"
    and "run = configureContainerNic env nicName ifName ipAddr gateway True routes macAddr
                 netns mtu nicType gwCheckMode"
  shows
    "(fst run = Done \<and>
      (\<forall>r\<in>set routes. ParseCIDR env (Destination r) \<noteq> Inr defaultNet4 \<and>
                        ParseCIDR env (Destination r) \<noteq> Inr defaultNet6) \<longrightarrow>
        (CheckProtocol env ipAddr = ProtocolDual \<longrightarrow>
            (\<exists>gw4 gw6 more. strings_Split CHR '','' gateway = gw4 # gw6 # more \<and>
               filter replacesDefaultRoute (snd run) =
                 [(RouteReplace \<lparr>LinkIndex = Index containerLink, Scope = SCOPE_UNIVERSE,
                                 Dst = Some defaultNet4, Gw = ParseIP env gw4\<rparr>, None),
                  (RouteReplace \<lparr>LinkIndex = Index containerLink, Scope = SCOPE_UNIVERSE,
                                 Dst = Some defaultNet6, Gw = ParseIP env gw6\<rparr>, None)])) \<and>
        (CheckProtocol env ipAddr = ProtocolIPv4 \<longrightarrow>
            filter replacesDefaultRoute (snd run) =
              [(RouteReplace \<lparr>LinkIndex = Index containerLink, Scope = SCOPE_UNIVERSE,
                              Dst = Some defaultNet4, Gw = ParseIP env gateway\<rparr>, None)]) \<and>
        (CheckProtocol env ipAddr = ProtocolIPv6 \<longrightarrow>
            filter replacesDefaultRoute (snd run) =
              [(RouteReplace \<lparr>LinkIndex = Index containerLink, Scope = SCOPE_UNIVERSE,
                              Dst = Some defaultNet6, Gw = ParseIP env gateway\<rparr>, None)])) \<and>
     ((\<forall>c. outcome env c = None) \<and>
      (\<exists>l. LinkByName env ifName = Inr l) \<and>
      (\<forall>l. \<exists>as. AddrList env l = Inr as) \<and>
      (\<forall>s\<in>set (strings_Split CHR '','' ipAddr). \<exists>a. ParseAddr env s = Inr a) \<and>
      (\<exists>v. Sysctl env ''net.ipv6.conf.all.disable_ipv6'' = Inr v) \<and>
      (CheckProtocol env ipAddr = ProtocolDual \<longrightarrow> 1 < length (strings_Split CHR '','' gateway)) \<and>
      (gwCheckMode \<noteq> gatewayModeDisabled env \<longrightarrow>
         length (strings_Split CHR '','' gateway) \<le> length (strings_Split CHR '','' ipAddr)) \<longrightarrow>
        fst run = Done)"
proof (intro conjI impI)
  assume "(\<forall>c. outcome env c = None) \<and>
      (\<exists>l. LinkByName env ifName = Inr l) \<and>
      (\<forall>l. \<exists>as. AddrList env l = Inr as) \<and>
      (\<forall>s\<in>set (strings_Split CHR '','' ipAddr). \<exists>a. ParseAddr env s = Inr a) \<and>
      (\<exists>v. Sysctl env ''net.ipv6.conf.all.disable_ipv6'' = Inr v) \<and>
      (CheckProtocol env ipAddr = ProtocolDual \<longrightarrow> 1 < length (strings_Split CHR '','' gateway)) \<and>
      (gwCheckMode \<noteq> gatewayModeDisabled env \<longrightarrow>
         length (strings_Split CHR '','' gateway) \<le> length (strings_Split CHR '','' ipAddr))"
  then obtain l' v where ok: "\<forall>c. outcome env c = None"
    and l2: "LinkByName env ifName = Inr l'"
    and al: "\<forall>l. \<exists>as. AddrList env l = Inr as"
    and p: "\<forall>s\<in>set (strings_Split CHR '','' ipAddr). \<exists>a. ParseAddr env s = Inr a"
    and sy: "Sysctl env ''net.ipv6.conf.all.disable_ipv6'' = Inr v"
    and g: "True \<and> CheckProtocol env ipAddr = ProtocolDual \<longrightarrow>
              1 < length (strings_Split CHR '','' gateway)"
    and w: "gwCheckMode \<noteq> gatewayModeDisabled env \<longrightarrow>
         length (strings_Split CHR '','' gateway) \<le> length (strings_Split CHR '','' ipAddr)"
    by blast
  show "fst run = Done"
    unfolding assms(2) by (rule configureContainerNic_ok [OF assms(1) ok l2 al p sy g w])
next
  assume a: "fst run = Done \<and>
      (\<forall>r\<in>set routes. ParseCIDR env (Destination r) \<noteq> Inr defaultNet4 \<and>
                        ParseCIDR env (Destination r) \<noteq> Inr defaultNet6)"
  then have dn: "fst (configureContainerNic env nicName ifName ipAddr gateway True routes
      macAddr netns mtu nicType gwCheckMode) = Done"
    and nd: "\<forall>r\<in>set routes. ParseCIDR env (Destination r) \<noteq> Inr defaultNet4 \<and>
                        ParseCIDR env (Destination r) \<noteq> Inr defaultNet6"
    by (simp_all add: assms(2))
  from configureContainerNic_Done_default_routes [OF assms(1) dn nd]
  have d: "fst (configureDefaultRoute env containerLink ipAddr gateway) = Done"
    and f: "filter replacesDefaultRoute (snd run) =
      filter replacesDefaultRoute (snd (configureDefaultRoute env containerLink ipAddr gateway))"
    by (simp_all add: assms(2))
  note R = configureDefaultRoute_Done [OF d]
  {
    assume "CheckProtocol env ipAddr = ProtocolDual"
    with R obtain gw4 gw6 more where "strings_Split CHR '','' gateway = gw4 # gw6 # more"
      "snd (configureDefaultRoute env containerLink ipAddr gateway) =
         [(RouteReplace (defaultRoute containerLink defaultNet4 (ParseIP env gw4)), None),
          (RouteReplace (defaultRoute containerLink defaultNet6 (ParseIP env gw6)), None)]"
      by blast
    then show "\<exists>gw4 gw6 more. strings_Split CHR '','' gateway = gw4 # gw6 # more \<and>
               filter replacesDefaultRoute (snd run) =
                 [(RouteReplace \<lparr>LinkIndex = Index containerLink, Scope = SCOPE_UNIVERSE,
                                 Dst = Some defaultNet4, Gw = ParseIP env gw4\<rparr>, None),
                  (RouteReplace \<lparr>LinkIndex = Index containerLink, Scope = SCOPE_UNIVERSE,
                                 Dst = Some defaultNet6, Gw = ParseIP env gw6\<rparr>, None)]"
      unfolding f by (simp add: defaultRoute_def [symmetric])
  }
  {
    assume "CheckProtocol env ipAddr = ProtocolIPv4"
    with R show "filter replacesDefaultRoute (snd run) =
              [(RouteReplace \<lparr>LinkIndex = Index containerLink, Scope = SCOPE_UNIVERSE,
                              Dst = Some defaultNet4, Gw = ParseIP env gateway\<rparr>, None)]"
      unfolding f by (simp add: defaultRoute_def [symmetric])
  }
  {
    assume "CheckProtocol env ipAddr = ProtocolIPv6"
    with R show "filter replacesDefaultRoute (snd run) =
              [(RouteReplace \<lparr>LinkIndex = Index containerLink, Scope = SCOPE_UNIVERSE,
                              Dst = Some defaultNet6, Gw = ParseIP env gateway\<rparr>, None)]"
      unfolding f by (simp add: defaultRoute_def [symmetric])
  }
qed

theorem configureContainerNic_default_routes_witness:
  "fst (configureContainerNic env_attach ''0123456789ab_c'' ''eth0'' ''10.0.0.5/24,fd00::5/64''
     ''10.0.0.1,fd00::1'' True [] [0, 0, 0, 17, 34, 51] ''/var/run/netns/pod'' 1400 ''veth-pair'' 1) = Done \<and>
   filter replacesDefaultRoute
     (snd (configureContainerNic env_attach ''0123456789ab_c'' ''eth0'' ''10.0.0.5/24,fd00::5/64''
       ''10.0.0.1,fd00::1'' True [] [0, 0, 0, 17, 34, 51] ''/var/run/netns/pod'' 1400 ''veth-pair'' 1)) =
     [(RouteReplace \<lparr>LinkIndex = 9, Scope = SCOPE_UNIVERSE, Dst = Some defaultNet4,
                     Gw = [10, 0, 0, 1]\<rparr>, None),
      (RouteReplace \<lparr>LinkIndex = 9, Scope = SCOPE_UNIVERSE, Dst = Some defaultNet6,
                     Gw = [253, 0, 0, 0, 0, 0, 0, 0, 0, 0, 0, 0, 0, 0, 0, 1]\<rparr>, None)] \<and>
   fst (configureContainerNic env_attach ''0123456789ab_c'' ''eth0'' ''10.0.0.5/24''
     ''10.0.0.1'' True [] [0, 0, 0, 17, 34, 51] ''/var/run/netns/pod'' 1400 ''veth-pair'' 1) = Done \<and>
   filter replacesDefaultRoute
     (snd (configureContainerNic env_attach ''0123456789ab_c'' ''eth0'' ''10.0.0.5/24''
       ''10.0.0.1'' True [] [0, 0, 0, 17, 34, 51] ''/var/run/netns/pod'' 1400 ''veth-pair'' 1)) =
     [(RouteReplace \<lparr>LinkIndex = 9, Scope = SCOPE_UNIVERSE, Dst = Some defaultNet4,
                     Gw = [10, 0, 0, 1]\<rparr>, None)] \<and>
   fst (configureContainerNic env_attach ''0123456789ab_c'' ''eth0'' ''fd00::5/64''
     ''fd00::1'' True [] [0, 0, 0, 17, 34, 51] ''/var/run/netns/pod'' 1400 ''veth-pair'' 0) = Done \<and>
   filter replacesDefaultRoute
     (snd (configureContainerNic env_attach ''0123456789ab_c'' ''eth0'' ''fd00::5/64''
       ''fd00::1'' True [] [0, 0, 0, 17, 34, 51] ''/var/run/netns/pod'' 1400 ''veth-pair'' 0)) =
     [(RouteReplace \<lparr>LinkIndex = 9, Scope = SCOPE_UNIVERSE, Dst = Some defaultNet6,
                     Gw = [253, 0, 0, 0, 0, 0, 0, 0, 0, 0, 0, 0, 0, 0, 0, 1]\<rparr>, None)]"
proof -
  have h1: "LinkByName env_attach ''0123456789ab_c'' = Inr veth_link"
    and ix: "Index veth_link = 9"
    and ip: "ParseIP env_attach ''10.0.0.1'' = [10, 0, 0, 1]"
      "ParseIP env_attach ''fd00::1'' = [253, 0, 0, 0, 0, 0, 0, 0, 0, 0, 0, 0, 0, 0, 0, 1]"
    and pr: "CheckProtocol env_attach ''10.0.0.5/24,fd00::5/64'' = ProtocolDual"
      "CheckProtocol env_attach ''10.0.0.5/24'' = ProtocolIPv4"
      "CheckProtocol env_attach ''fd00::5/64'' = ProtocolIPv6"
    and sp: "strings_Split CHR '','' ''10.0.0.1,fd00::1'' = [''10.0.0.1'', ''fd00::1'']"
      "strings_Split CHR '','' ''10.0.0.5/24,fd00::5/64'' = [''10.0.0.5/24'', ''fd00::5/64'']"
      "strings_Split CHR '','' ''10.0.0.1'' = [''10.0.0.1'']"
      "strings_Split CHR '','' ''10.0.0.5/24'' = [''10.0.0.5/24'']"
      "strings_Split CHR '','' ''fd00::1'' = [''fd00::1'']"
      "strings_Split CHR '','' ''fd00::5/64'' = [''fd00::5/64'']"
    and co: "\<forall>c. outcome env_attach c = None"
      "\<exists>l. LinkByName env_attach ''eth0'' = Inr l"
      "\<forall>l. \<exists>as. AddrList env_attach l = Inr as"
      "\<exists>a. ParseAddr env_attach ''10.0.0.5/24'' = Inr a"
      "\<exists>a. ParseAddr env_attach ''fd00::5/64'' = Inr a"
      "\<exists>v. Sysctl env_attach ''net.ipv6.conf.all.disable_ipv6'' = Inr v"
    by (simp_all add: env_attach_def env_dual_def env_ok_def veth_link_def)
  note T = configureContainerNic_default_routes [OF h1 refl, of _ _ _ "[]"]
  from T [of "''eth0''" "''10.0.0.5/24,fd00::5/64''" "''10.0.0.1,fd00::1''"]
    T [of "''eth0''" "''10.0.0.5/24''" "''10.0.0.1''"]
    T [of "''eth0''" "''fd00::5/64''" "''fd00::1''"]
  show ?thesis
    by (simp add: ix ip pr sp co)
qed

text \<open>
  The claim as stated fails: the additional static routes of the request are replaced
  after the default routes, whatever their destination. With a static route to
  0.0.0.0/0 via 10.0.0.254 the dual-stack request makes three calls that replace a
  default route, and the third replaces the IPv4 default route via the first gateway.
\<close>

theorem configureContainerNic_static_default_route:
  "ParseCIDR env_static_default ''0.0.0.0/0'' = Inr defaultNet4 \<and>
   CheckProtocol env_static_default ''10.0.0.5/24,fd00::5/64'' = ProtocolDual \<and>
   fst (configureContainerNic env_static_default ''0123456789ab_c'' ''eth0'' ''10.0.0.5/24,fd00::5/64''
          ''10.0.0.1,fd00::1'' True [\<lparr>Destination = ''0.0.0.0/0'', Gateway = ''10.0.0.254''\<rparr>]
          [0, 0, 0, 17, 34, 51] ''/var/run/netns/pod'' 1400 ''veth-pair'' 1) = Done \<and>
   filter replacesDefaultRoute
     (snd (configureContainerNic env_static_default ''0123456789ab_c'' ''eth0'' ''10.0.0.5/24,fd00::5/64''
          ''10.0.0.1,fd00::1'' True [\<lparr>Destination = ''0.0.0.0/0'', Gateway = ''10.0.0.254''\<rparr>]
          [0, 0, 0, 17, 34, 51] ''/var/run/netns/pod'' 1400 ''veth-pair'' 1)) =
     [(RouteReplace \<lparr>LinkIndex = 9, Scope = SCOPE_UNIVERSE, Dst = Some defaultNet4,
                     Gw = [10, 0, 0, 1]\<rparr>, None),
      (RouteReplace \<lparr>LinkIndex = 9, Scope = SCOPE_UNIVERSE, Dst = Some defaultNet6,
                     Gw = [253, 0, 0, 0, 0, 0, 0, 0, 0, 0, 0, 0, 0, 0, 0, 1]\<rparr>, None),
      (RouteReplace \<lparr>LinkIndex = 9, Scope = 0, Dst = Some defaultNet4,
                     Gw = [10, 0, 0, 254]\<rparr>, None)]"
  by (simp add: configureContainerNic_def env_static_default_def env_attach_def env_dual_def
      env_ok_def invoke_def configureNic_def applyAddrs_def configureDefaultRoute_def
      defaultRoute_def staticRoute_def replacesDefaultRoute_def
      waitNetworkReady_def gatewayProbe_def veth_link_def ip4_24_def)

end
